theory Spec2Isabelle
  imports Main "HOL-Library.AList" "HOL-Library.Char_ord" "HOL-Library.List_Lexorder"
begin

section \<open>Python strings\<close>

text \<open>
  A Python \<open>str\<close> is modelled as a HOL \<open>string\<close> whose characters are ASCII.  The
  string methods the program calls are defined on ASCII as CPython defines them; a
  character above 127 is left alone by them and is never whitespace (Python's Unicode
  tables are not part of the model).
\<close>

definition ascii_lowercase :: string where
  "ascii_lowercase = ''abcdefghijklmnopqrstuvwxyz''"

definition ascii_uppercase :: string where
  "ascii_uppercase = ''ABCDEFGHIJKLMNOPQRSTUVWXYZ''"

definition LF :: char where
  "LF = CHR 0x0A"

definition CR :: char where
  "CR = CHR 0x0D"

text \<open>\<open>str.isspace\<close> on one ASCII character: tab, line feed, vertical tab, form feed,
  carriage return, the four separators 0x1C..0x1F and the space.\<close>

definition isspace :: "char \<Rightarrow> bool" where
  "isspace c = (c \<in> set [CHR 0x09, CHR 0x0A, CHR 0x0B, CHR 0x0C, CHR 0x0D,
                           CHR 0x1C, CHR 0x1D, CHR 0x1E, CHR 0x1F, CHR 0x20])"

definition upper_char :: "char \<Rightarrow> char" where
  "upper_char c = (case map_of (zip ascii_lowercase ascii_uppercase) c of
                     Some u \<Rightarrow> u | None \<Rightarrow> c)"

definition lower_char :: "char \<Rightarrow> char" where
  "lower_char c = (case map_of (zip ascii_uppercase ascii_lowercase) c of
                     Some l \<Rightarrow> l | None \<Rightarrow> c)"

definition is_cased :: "char \<Rightarrow> bool" where
  "is_cased c = (c \<in> set (ascii_lowercase @ ascii_uppercase))"

text \<open>\<open>s.strip()\<close>: leading and trailing whitespace removed.\<close>

definition str_strip :: "string \<Rightarrow> string" where
  "str_strip s = rev (dropWhile isspace (rev (dropWhile isspace s)))"

text \<open>\<open>s.upper()\<close>.\<close>

definition str_upper :: "string \<Rightarrow> string" where
  "str_upper s = map upper_char s"

text \<open>\<open>s.title()\<close>: a character that follows a cased character is lowercased, every
  other character is uppercased (so a letter after a digit, a dot or an apostrophe starts
  a new word).  The flag is CPython's \<open>previous_is_cased\<close>.\<close>

fun title_from :: "bool \<Rightarrow> string \<Rightarrow> string" where
  "title_from previous_is_cased [] = []"
| "title_from previous_is_cased (c # cs) =
     (if previous_is_cased then lower_char c else upper_char c) # title_from (is_cased c) cs"

definition str_title :: "string \<Rightarrow> string" where
  "str_title s = title_from False s"

text \<open>\<open>s.split(sep)\<close> for a one-character separator: never an empty list, and an empty
  field for every separator at an end or next to another one.\<close>

fun str_split :: "char \<Rightarrow> string \<Rightarrow> string list" where
  "str_split sep [] = [[]]"
| "str_split sep (c # cs) =
     (if c = sep then [] # str_split sep cs
      else (case str_split sep cs of
              [] \<Rightarrow> [[c]]
            | w # ws \<Rightarrow> (c # w) # ws))"

text \<open>\<open>sep.join(xs)\<close>.\<close>

fun str_join :: "string \<Rightarrow> string list \<Rightarrow> string" where
  "str_join sep [] = []"
| "str_join sep [x] = x"
| "str_join sep (x # y # ys) = x @ sep @ str_join sep (y # ys)"

section \<open>Text files\<close>

text \<open>
  A file on disk, as the loaders see it: it does not exist (\<open>os.path.exists\<close> is false),
  it exists but \<open>open\<close> raises \<open>IOError\<close>, or it holds a text.  An \<open>IOError\<close> in the
  middle of reading is not modelled.
\<close>

datatype text_file = Missing | Unreadable | Content string

text \<open>Reading in text mode translates \<open>\r\n\<close> and a lone \<open>\r\<close> to \<open>\n\<close> (universal
  newlines).\<close>

fun translate_newlines :: "string \<Rightarrow> string" where
  "translate_newlines [] = []"
| "translate_newlines [c] = [if c = CR then LF else c]"
| "translate_newlines (c # d # cs) =
     (if c = CR then
        (if d = LF then LF # translate_newlines cs else LF # translate_newlines (d # cs))
      else c # translate_newlines (d # cs))"

text \<open>\<open>for line in f\<close>: the lines of the text, each with its line feed; a last line
  without one is a line too, and an empty text has no line.\<close>

fun readlines :: "string \<Rightarrow> string list" where
  "readlines [] = []"
| "readlines (c # cs) =
     (if c = LF then [c] # readlines cs
      else (case readlines cs of
              [] \<Rightarrow> [[c]]
            | l # ls \<Rightarrow> (c # l) # ls))"

definition BOOK_CATALOG_FILE :: string where
  "BOOK_CATALOG_FILE = ''books.txt''"

definition ISSUED_RECORDS_FILE :: string where
  "ISSUED_RECORDS_FILE = ''issued_books.txt''"

section \<open>The library\<close>

text \<open>A catalog entry is the dictionary \<open>{'id': ..., 'title': ..., 'author': ...}\<close>.\<close>

record book =
  id' :: string
  title :: string
  author :: string

text \<open>
  The attributes of a \<open>Library\<close> object.  \<open>issued_records\<close> is a Python dictionary from a
  student id to a set of book ids: an association list in insertion order, read with
  \<open>map_of\<close>, written with \<open>AList.update\<close> (in place for a key that is there, at the end
  for a new one) and \<open>AList.delete\<close>.
\<close>

record library =
  catalog :: "book list"
  available_book_ids :: "string set"
  issued_records :: "(string \<times> string set) list"

text \<open>
  What an operation writes to the terminal, one constructor for every \<open>print\<close> of the
  source (the prompts of \<open>input\<close> are not recorded).  \<open>SaveCatalog c\<close> and
  \<open>SaveIssuedRecords r\<close> stand for the calls of \<open>_save_catalog\<close> and
  \<open>_save_issued_records\<close> with \<open>c\<close> and \<open>r\<close> in memory: the file is rewritten with
  \<open>save_catalog c\<close> or \<open>save_issued_records\<close> of \<open>r\<close>, and the success or the
  \<open>IOError\<close> of the write is printed; neither touches the library object.
\<close>

datatype event =
    ErrorLoading string
  | SaveCatalog "book list"
  | SaveIssuedRecords "(string \<times> string set) list"
  | AddHeader
  | DuplicateId string
  | BookAdded string string
  | DisplayHeader
  | CatalogEmpty
  | AllIssued
  | TotalAvailable nat
  | Listing nat book
  | IssueHeader
  | BookNotFound string
  | BookAlreadyIssued string
  | BookIssued string string
  | ReturnHeader
  | StudentHasNoRecords string
  | BookReturned string string
  | BookNotIssuedToStudent string string

text \<open>\<open>input()\<close> raises \<open>EOFError\<close> when standard input is exhausted; nothing catches it.\<close>

datatype error = EOFError

text \<open>
  An operation takes the library and the lines still waiting on standard input, and
  gives what it printed together with either the exception that ended it or the library
  it leaves and the input it has not read.
\<close>

type_synonym result = "event list \<times> (error + library \<times> string list)"

subsection \<open>File handlers\<close>

definition catalog_line :: "book list \<Rightarrow> string \<Rightarrow> book list" where
  "catalog_line books line =
     (let parts = str_split (CHR ''|'') (str_strip line) in
      if length parts = 3 then
        books @ [\<lparr>id' = str_strip (parts ! 0),
                     title = str_strip (parts ! 1),
                     author = str_strip (parts ! 2)\<rparr>]
      else books)"

fun load_catalog :: "text_file \<Rightarrow> event list \<times> book list" where
  "load_catalog Missing = ([], [])"
| "load_catalog Unreadable = ([ErrorLoading BOOK_CATALOG_FILE], [])"
| "load_catalog (Content text) =
     ([], foldl catalog_line [] (readlines (translate_newlines text)))"

definition save_catalog :: "book list \<Rightarrow> string" where
  "save_catalog books =
     concat (map (\<lambda>book. id' book @ ''|'' @ title book @ ''|'' @ author book @ [LF]) books)"

text \<open>A field that the catalog file gives back as it was written: trimmed already, and
  without a bar or a line break.\<close>

definition plain_field :: "string \<Rightarrow> bool" where
  "plain_field f = (str_strip f = f \<and> CHR ''|'' \<notin> set f \<and> LF \<notin> set f \<and> CR \<notin> set f)"

definition plain_book :: "book \<Rightarrow> bool" where
  "plain_book b = (plain_field (id' b) \<and> plain_field (title b) \<and> plain_field (author b))"

definition issued_line ::
  "(string \<times> string set) list \<Rightarrow> string \<Rightarrow> (string \<times> string set) list" where
  "issued_line records line =
     (let parts = str_split (CHR '':'') (str_strip line) in
      if length parts = 2 then
        (let student_id = str_strip (parts ! 0);
             book_ids = set (str_split (CHR '','') (parts ! 1))
         in AList.update student_id book_ids records)
      else records)"

fun load_issued_records :: "text_file \<Rightarrow> event list \<times> (string \<times> string set) list" where
  "load_issued_records Missing = ([], [])"
| "load_issued_records Unreadable = ([ErrorLoading ISSUED_RECORDS_FILE], [])"
| "load_issued_records (Content text) =
     ([], foldl issued_line [] (readlines (translate_newlines text)))"

text \<open>
  Python leaves the order in which a set is iterated open; \<open>iteration\<close> is that order,
  a parameter of the model.
\<close>

definition save_issued_records ::
  "(string set \<Rightarrow> string list) \<Rightarrow> (string \<times> string set) list \<Rightarrow> string" where
  "save_issued_records iteration records =
     concat (map (\<lambda>(student_id, book_ids).
                    student_id @ '': '' @ str_join '','' (iteration book_ids) @ [LF])
                 records)"

text \<open>\<open>Library.__init__\<close>, given the two files.\<close>

definition Library_init :: "text_file \<Rightarrow> text_file \<Rightarrow> event list \<times> library" where
  "Library_init books_txt issued_books_txt =
     (case load_catalog books_txt of (out1, books) \<Rightarrow>
      case load_issued_records issued_books_txt of (out2, records) \<Rightarrow>
        (out1 @ out2,
         \<lparr>catalog = books,
          available_book_ids = set (map id' books),
          issued_records = records\<rparr>))"

subsection \<open>Add book\<close>

text \<open>The \<open>while True\<close> loop of \<open>add_book\<close>: it asks for an id until one is not in
  \<open>available_book_ids\<close>.\<close>

fun read_book_id :: "library \<Rightarrow> string list \<Rightarrow> event list \<times> (error + string \<times> string list)" where
  "read_book_id L [] = ([], Inl EOFError)"
| "read_book_id L (l # ins) =
     (let book_id = str_upper (str_strip l) in
      if book_id \<in> available_book_ids L then
        (case read_book_id L ins of (out, r) \<Rightarrow> (DuplicateId book_id # out, r))
      else ([], Inr (book_id, ins)))"

definition add_book :: "library \<Rightarrow> string list \<Rightarrow> result" where
  "add_book L ins =
     (case read_book_id L ins of
        (out, Inl e) \<Rightarrow> (AddHeader # out, Inl e)
      | (out, Inr (book_id, ins1)) \<Rightarrow>
          (case ins1 of
             [] \<Rightarrow> (AddHeader # out, Inl EOFError)
           | [t] \<Rightarrow> (AddHeader # out, Inl EOFError)
           | t # a # ins2 \<Rightarrow>
               (let new_title = str_title (str_strip t);
                    new_author = str_title (str_strip a);
                    new_book = \<lparr>id' = book_id, title = new_title, author = new_author\<rparr>;
                    L' = L\<lparr>catalog := catalog L @ [new_book],
                           available_book_ids := insert book_id (available_book_ids L)\<rparr>
                in (AddHeader # out @ [BookAdded new_title new_author, SaveCatalog (catalog L')],
                    Inr (L', ins2)))))"

subsection \<open>Display available books\<close>

text \<open>\<open>set().union(*self.issued_records.values())\<close>: with no value at all the call is
  \<open>set().union()\<close>, the empty set.\<close>

definition issued_book_ids :: "library \<Rightarrow> string set" where
  "issued_book_ids L = \<Union> (set (map snd (issued_records L)))"

definition available_books :: "library \<Rightarrow> book list" where
  "available_books L = filter (\<lambda>book. id' book \<notin> issued_book_ids L) (catalog L)"

definition display_available_books :: "library \<Rightarrow> string list \<Rightarrow> result" where
  "display_available_books L ins =
     (if catalog L = [] then ([DisplayHeader, CatalogEmpty], Inr (L, ins))
      else if available_books L = [] then ([DisplayHeader, AllIssued], Inr (L, ins))
      else
        ([DisplayHeader, TotalAvailable (length (available_books L))]
           @ map (\<lambda>(i, book). Listing i book)
                 (zip [1 ..< Suc (length (available_books L))] (available_books L)),
         Inr (L, ins)))"

subsection \<open>Issue and return\<close>

fun issue_book :: "library \<Rightarrow> string list \<Rightarrow> result" where
  "issue_book L (s # b # ins) =
     (let student_id = str_upper (str_strip s);
          book_id = str_upper (str_strip b);
          book_exists = list_ex (\<lambda>book. id' book = book_id) (catalog L)
      in
      if \<not> book_exists then ([IssueHeader, BookNotFound book_id], Inr (L, ins))
      else
        (let is_issued = list_ex (\<lambda>issued_set. book_id \<in> issued_set)
                                 (map snd (issued_records L))
         in
         if is_issued then ([IssueHeader, BookAlreadyIssued book_id], Inr (L, ins))
         else
           (let records = (case map_of (issued_records L) student_id of
                             None \<Rightarrow> AList.update student_id {} (issued_records L)
                           | Some _ \<Rightarrow> issued_records L);
                records = (case map_of records student_id of
                             None \<Rightarrow> records
                           | Some issued_set \<Rightarrow>
                               AList.update student_id (insert book_id issued_set) records);
                L' = L\<lparr>issued_records := records\<rparr>
            in ([IssueHeader, BookIssued book_id student_id, SaveIssuedRecords records],
                Inr (L', ins)))))"
| "issue_book L ins = ([IssueHeader], Inl EOFError)"

fun return_book :: "library \<Rightarrow> string list \<Rightarrow> result" where
  "return_book L (s # b # ins) =
     (let student_id = str_upper (str_strip s);
          book_id = str_upper (str_strip b)
      in
      case map_of (issued_records L) student_id of
        None \<Rightarrow> ([ReturnHeader, StudentHasNoRecords student_id], Inr (L, ins))
      | Some issued_set \<Rightarrow>
          if book_id \<in> issued_set then
            (let issued_set = issued_set - {book_id};
                 records = AList.update student_id issued_set (issued_records L);
                 records = (if issued_set = {} then AList.delete student_id records
                            else records);
                 L' = L\<lparr>issued_records := records\<rparr>
             in ([ReturnHeader, BookReturned book_id student_id, SaveIssuedRecords records],
                 Inr (L', ins)))
          else ([ReturnHeader, BookNotIssuedToStudent book_id student_id], Inr (L, ins)))"
| "return_book L ins = ([ReturnHeader], Inl EOFError)"

text \<open>
  The states of the program: \<open>main\<close> builds the library from whatever the two files
  hold and then calls the operations in any order, each on whatever is typed.
  (\<open>display_available_books\<close> returns the library it was given.)
\<close>

inductive reachable :: "library \<Rightarrow> bool" where
  start: "Library_init books_txt issued_books_txt = (out, L) \<Longrightarrow> reachable L"
| add: "reachable L \<Longrightarrow> add_book L ins = (out, Inr (L', ins')) \<Longrightarrow> reachable L'"
| issue: "reachable L \<Longrightarrow> issue_book L ins = (out, Inr (L', ins')) \<Longrightarrow> reachable L'"
| return: "reachable L \<Longrightarrow> return_book L ins = (out, Inr (L', ins')) \<Longrightarrow> reachable L'"

text \<open>No student is mapped to the empty set: a key is there only while its set holds a
  book.\<close>

definition nonempty_sets :: "(string \<times> string set) list \<Rightarrow> bool" where
  "nonempty_sets records = (\<forall>(s, S) \<in> set records. S \<noteq> {})"

text \<open>Each book id is a member of at most one student's issued set.\<close>

definition one_holder :: "(string \<times> string set) list \<Rightarrow> bool" where
  "one_holder records =
     (\<forall>(s1, S1) \<in> set records. \<forall>(s2, S2) \<in> set records. s1 \<noteq> s2 \<longrightarrow> S1 \<inter> S2 = {})"

section \<open>Association lists and the loaders\<close>

text \<open>What the loader and the operations do to \<open>issued_records\<close>, and that no state of
  the program maps a student to the empty set.\<close>

lemma str_split_not_Nil: "str_split sep s \<noteq> []"
  by (induction s) (auto split: list.splits)

lemma set_update_subset: "set (AList.update k v al) \<subseteq> insert (k, v) (set al)"
  by (induction al) auto

lemma set_delete_subset: "set (AList.delete k al) \<subseteq> set al"
  by (induction al) auto

lemma nonempty_sets_update:
  "nonempty_sets al \<Longrightarrow> S \<noteq> {} \<Longrightarrow> nonempty_sets (AList.update k S al)"
  using set_update_subset [of k S al] unfolding nonempty_sets_def by blast

lemma nonempty_sets_delete:
  "nonempty_sets al \<Longrightarrow> nonempty_sets (AList.delete k al)"
  using set_delete_subset [of k al] unfolding nonempty_sets_def by blast

lemma nonempty_sets_issued_line:
  assumes "nonempty_sets records"
  shows "nonempty_sets (issued_line records line)"
proof -
  have "set (str_split (CHR '','') x) \<noteq> {}" for x
    by (simp add: str_split_not_Nil)
  with assms show ?thesis
    unfolding issued_line_def Let_def by (simp add: nonempty_sets_update)
qed

lemma nonempty_sets_foldl:
  "nonempty_sets records \<Longrightarrow> nonempty_sets (foldl issued_line records lines)"
  by (induction lines arbitrary: records) (simp_all add: nonempty_sets_issued_line)

lemma nonempty_sets_load: "nonempty_sets (snd (load_issued_records f))"
proof (cases f)
  case (Content t)
  have "nonempty_sets []" by (simp add: nonempty_sets_def)
  with Content show ?thesis by (simp add: nonempty_sets_foldl)
qed (simp_all add: nonempty_sets_def)

lemma add_book_issued_records:
  "add_book L ins = (out, Inr (L', ins')) \<Longrightarrow> issued_records L' = issued_records L"
  by (auto simp: add_book_def Let_def split: prod.splits sum.splits list.splits)

lemma issue_book_outcome:
  assumes "issue_book L (s # b # ins) = (out, Inr (L', ins'))"
  shows "ins' = ins \<and>
         (L' = L \<and> (\<forall>book_id student_id. BookIssued book_id student_id \<notin> set out) \<or>
          (\<forall>S \<in> set (map snd (issued_records L)). str_upper (str_strip b) \<notin> S) \<and>
          L' = L\<lparr>issued_records :=
                   AList.update (str_upper (str_strip s))
                     (insert (str_upper (str_strip b))
                        (case map_of (issued_records L) (str_upper (str_strip s)) of
                           None \<Rightarrow> {} | Some S \<Rightarrow> S))
                     (issued_records L)\<rparr>)"
proof (cases "list_ex (\<lambda>book. id' book = str_upper (str_strip b)) (catalog L)")
  case False
  with assms show ?thesis by (auto simp: Let_def)
next
  case True
  show ?thesis
  proof (cases "list_ex (\<lambda>S. str_upper (str_strip b) \<in> S) (map snd (issued_records L))")
    case True
    with \<open>list_ex (\<lambda>book. id' book = str_upper (str_strip b)) (catalog L)\<close> assms
    show ?thesis by (auto simp: Let_def)
  next
    case False
    then have "\<forall>S \<in> set (map snd (issued_records L)). str_upper (str_strip b) \<notin> S"
      by (simp add: list_ex_iff)
    moreover from False True assms
    have "ins' = ins \<and>
          L' = L\<lparr>issued_records :=
                   AList.update (str_upper (str_strip s))
                     (insert (str_upper (str_strip b))
                        (case map_of (issued_records L) (str_upper (str_strip s)) of
                           None \<Rightarrow> {} | Some S \<Rightarrow> S))
                     (issued_records L)\<rparr>"
      by (auto simp: Let_def update_conv' split: option.splits)
    ultimately show ?thesis by blast
  qed
qed

lemma issue_book_records:
  assumes "issue_book L ins = (out, Inr (L', ins'))"
  shows "L' = L \<or>
         (\<exists>student_id book_id.
            (\<forall>S \<in> set (map snd (issued_records L)). book_id \<notin> S) \<and>
            L' = L\<lparr>issued_records :=
                     AList.update student_id
                       (insert book_id (case map_of (issued_records L) student_id of
                                          None \<Rightarrow> {} | Some S \<Rightarrow> S))
                       (issued_records L)\<rparr>)"
proof (cases ins)
  case Nil
  with assms show ?thesis by simp
next
  case (Cons s ins1)
  show ?thesis
  proof (cases ins1)
    case Nil
    with Cons assms show ?thesis by simp
  next
    case (Cons b ins2)
    with \<open>ins = s # ins1\<close> assms
    have "issue_book L (s # b # ins2) = (out, Inr (L', ins'))" by simp
    from issue_book_outcome [OF this] show ?thesis by blast
  qed
qed

lemma return_book_records:
  assumes "return_book L ins = (out, Inr (L', ins'))"
  shows "L' = L \<or>
         (\<exists>student_id book_id S.
            map_of (issued_records L) student_id = Some S \<and>
            L' = L\<lparr>issued_records :=
                     (if S - {book_id} = {} then AList.delete student_id (issued_records L)
                      else AList.update student_id (S - {book_id}) (issued_records L))\<rparr>)"
proof (cases ins)
  case Nil
  with assms show ?thesis by simp
next
  case (Cons s ins1)
  show ?thesis
  proof (cases ins1)
    case Nil
    with Cons assms show ?thesis by simp
  next
    case (Cons b ins2)
    with \<open>ins = s # ins1\<close> assms show ?thesis
      by (simp add: Let_def delete_update_same split: if_splits option.splits) blast+
  qed
qed

lemma issue_book_nonempty_sets:
  assumes "nonempty_sets (issued_records L)" and "issue_book L ins = (out, Inr (L', ins'))"
  shows "nonempty_sets (issued_records L')"
  using issue_book_records [OF assms(2)] assms(1)
  by (auto simp: nonempty_sets_update)

lemma return_book_nonempty_sets:
  assumes "nonempty_sets (issued_records L)" and "return_book L ins = (out, Inr (L', ins'))"
  shows "nonempty_sets (issued_records L')"
  using return_book_records [OF assms(2)] assms(1)
  by (auto simp: nonempty_sets_update nonempty_sets_delete)

lemma reachable_nonempty_sets: "reachable L \<Longrightarrow> nonempty_sets (issued_records L)"
proof (induction rule: reachable.induct)
  case (start books_txt issued_books_txt out L)
  then have "issued_records L = snd (load_issued_records issued_books_txt)"
    by (auto simp: Library_init_def split: prod.splits)
  then show ?case by (simp add: nonempty_sets_load)
next
  case (add L ins out L' ins')
  then show ?case by (simp add: add_book_issued_records)
next
  case (issue L ins out L' ins')
  then show ?case by (blast intro: issue_book_nonempty_sets)
next
  case (return L ins out L' ins')
  then show ?case by (blast intro: return_book_nonempty_sets)
qed

text \<open>In every state of the program \<open>issued_records\<close> has no key twice, as a
  dictionary, and \<open>available_book_ids\<close> is the set of the catalog's ids.\<close>

lemma distinct_keys_foldl:
  "distinct (map fst records) \<Longrightarrow> distinct (map fst (foldl issued_line records lines))"
proof (induction lines arbitrary: records)
  case Nil
  then show ?case by simp
next
  case (Cons line lines)
  from Cons.prems have "distinct (map fst (issued_line records line))"
    by (simp add: issued_line_def Let_def distinct_update)
  then show ?case by (simp add: Cons.IH)
qed

lemma reachable_distinct_keys: "reachable L \<Longrightarrow> distinct (map fst (issued_records L))"
proof (induction rule: reachable.induct)
  case (start books_txt issued_books_txt out L)
  then have "issued_records L = snd (load_issued_records issued_books_txt)"
    by (auto simp: Library_init_def split: prod.splits)
  then show ?case by (cases issued_books_txt) (simp_all add: distinct_keys_foldl)
next
  case (add L ins out L' ins')
  then show ?case by (simp add: add_book_issued_records)
next
  case (issue L ins out L' ins')
  from issue_book_records [OF issue.hyps(2)] issue.IH show ?case
    by (auto simp: distinct_update)
next
  case (return L ins out L' ins')
  from return_book_records [OF return.hyps(2)] return.IH show ?case
    by (auto simp: distinct_update distinct_delete)
qed

lemma add_book_available_book_ids:
  assumes "add_book L ins = (out, Inr (L', ins'))"
    and "available_book_ids L = set (map id' (catalog L))"
  shows "available_book_ids L' = set (map id' (catalog L'))"
  using assms
  by (auto simp: add_book_def Let_def split: prod.splits sum.splits list.splits)

lemma reachable_available_book_ids:
  "reachable L \<Longrightarrow> available_book_ids L = set (map id' (catalog L))"
proof (induction rule: reachable.induct)
  case (start books_txt issued_books_txt out L)
  then show ?case by (auto simp: Library_init_def split: prod.splits)
next
  case (add L ins out L' ins')
  then show ?case by (simp add: add_book_available_book_ids)
next
  case (issue L ins out L' ins')
  from issue_book_records [OF issue.hyps(2)] issue.IH show ?case by auto
next
  case (return L ins out L' ins')
  from return_book_records [OF return.hyps(2)] return.IH show ?case by auto
qed

lemma issue_book_success:
  assumes "issue_book L (s # b # ins) = (out, Inr (L1, ins1))"
    and "BookIssued book_id student_id \<in> set out"
  shows "\<forall>S \<in> set (map snd (issued_records L)). str_upper (str_strip b) \<notin> S"
    and "L1 = L\<lparr>issued_records :=
                 AList.update (str_upper (str_strip s))
                   (insert (str_upper (str_strip b))
                      (case map_of (issued_records L) (str_upper (str_strip s)) of
                         None \<Rightarrow> {} | Some S \<Rightarrow> S))
                   (issued_records L)\<rparr>"
  using issue_book_outcome [OF assms(1)] assms(2) by blast+

section \<open>Evaluation\<close>

text \<open>The definitions a concrete run unfolds.\<close>

lemmas str_defs = str_strip_def str_upper_def str_title_def isspace_def upper_char_def
  lower_char_def is_cased_def ascii_lowercase_def ascii_uppercase_def LF_def CR_def Let_def

section \<open>Issue and return round trip\<close>

text \<open>
  C2: in every state of the program, when \<open>issue_book\<close> on the typed student id and book
  id succeeds, \<open>return_book\<close> on the same two lines succeeds as well and leaves
  \<open>issued_records\<close> as it was before the issue, so that \<open>display_available_books\<close>
  prints exactly what it printed before.
\<close>

theorem issue_then_return_restores:
  assumes "reachable L"
    and "issue_book L (s # b # ins) = (out, Inr (L1, ins1))"
    and "BookIssued book_id student_id \<in> set out"
  shows "\<exists>L2. return_book L1 (s # b # ins2) =
                ([ReturnHeader,
                  BookReturned (str_upper (str_strip b)) (str_upper (str_strip s)),
                  SaveIssuedRecords (issued_records L2)],
                 Inr (L2, ins2))
              \<and> issued_records L2 = issued_records L
              \<and> fst (display_available_books L2 ins3) = fst (display_available_books L ins3)"
proof -
  define sid where "sid = str_upper (str_strip s)"
  define bid where "bid = str_upper (str_strip b)"
  define S0 where "S0 = (case map_of (issued_records L) sid of None \<Rightarrow> {} | Some S \<Rightarrow> S)"
  have unissued: "\<forall>S \<in> set (map snd (issued_records L)). bid \<notin> S"
    and L1: "L1 = L\<lparr>issued_records := AList.update sid (insert bid S0) (issued_records L)\<rparr>"
    using issue_book_success [OF assms(2,3)] by (simp_all add: sid_def bid_def S0_def)
  have ne: "nonempty_sets (issued_records L)"
    using assms(1) by (rule reachable_nonempty_sets)
  have S0: "bid \<notin> S0"
  proof (cases "map_of (issued_records L) sid")
    case None
    then show ?thesis by (simp add: S0_def)
  next
    case (Some S)
    then have "(sid, S) \<in> set (issued_records L)" by (rule map_of_SomeD)
    with unissued have "bid \<notin> S" by force
    with Some show ?thesis by (simp add: S0_def)
  qed
  then have removed: "insert bid S0 - {bid} = S0" by blast
  have restored: "(if S0 = {} then AList.delete sid (issued_records L)
               else AList.update sid S0 (issued_records L)) = issued_records L"
  proof (cases "map_of (issued_records L) sid")
    case None
    then have "sid \<notin> fst ` set (issued_records L)"
      by (simp add: map_of_eq_None_iff)
    with None show ?thesis by (simp add: S0_def)
  next
    case (Some S)
    then have "(sid, S) \<in> set (issued_records L)" by (rule map_of_SomeD)
    with ne have "S \<noteq> {}" by (auto simp: nonempty_sets_def)
    with Some show ?thesis by (simp add: S0_def update_triv)
  qed
  have "return_book L1 (s # b # ins2) =
          ([ReturnHeader, BookReturned bid sid, SaveIssuedRecords (issued_records L)],
           Inr (L, ins2))"
    using restored
    by (simp add: L1 Let_def update_conv' removed delete_update_same
             flip: sid_def bid_def split: if_splits)
  then show ?thesis by (simp add: sid_def bid_def)
qed

theorem issue_then_return_restores_witness:
  "reachable \<lparr>catalog = [\<lparr>id' = ''B101'', title = ''Python Guide'', author = ''G V''\<rparr>],
              available_book_ids = {''B101''}, issued_records = []\<rparr>
   \<and> issue_book \<lparr>catalog = [\<lparr>id' = ''B101'', title = ''Python Guide'', author = ''G V''\<rparr>],
                  available_book_ids = {''B101''}, issued_records = []\<rparr>
                 [''s101'', ''b101 '']
       = ([IssueHeader, BookIssued ''B101'' ''S101'', SaveIssuedRecords [(''S101'', {''B101''})]],
          Inr (\<lparr>catalog = [\<lparr>id' = ''B101'', title = ''Python Guide'', author = ''G V''\<rparr>],
                available_book_ids = {''B101''}, issued_records = [(''S101'', {''B101''})]\<rparr>, []))
   \<and> return_book \<lparr>catalog = [\<lparr>id' = ''B101'', title = ''Python Guide'', author = ''G V''\<rparr>],
                   available_book_ids = {''B101''}, issued_records = [(''S101'', {''B101''})]\<rparr>
                  [''s101'', ''b101 '']
       = ([ReturnHeader, BookReturned ''B101'' ''S101'', SaveIssuedRecords []],
          Inr (\<lparr>catalog = [\<lparr>id' = ''B101'', title = ''Python Guide'', author = ''G V''\<rparr>],
                available_book_ids = {''B101''}, issued_records = []\<rparr>, []))"
proof -
  let ?L = "\<lparr>catalog = [\<lparr>id' = ''B101'', title = ''Python Guide'', author = ''G V''\<rparr>],
             available_book_ids = {''B101''}, issued_records = []\<rparr>"
  let ?L1 = "?L\<lparr>issued_records := [(''S101'', {''B101''})]\<rparr>"
  have "Library_init (Content ''B101|Python Guide|G V'') Missing = ([], ?L)"
    by (simp add: Library_init_def catalog_line_def str_defs)
  then have r: "reachable ?L" by (rule reachable.start)
  have i: "issue_book ?L [''s101'', ''b101 '']
           = ([IssueHeader, BookIssued ''B101'' ''S101'', SaveIssuedRecords [(''S101'', {''B101''})]],
              Inr (?L1, []))"
    by (simp add: str_defs)
  have m: "BookIssued ''B101'' ''S101''
           \<in> set [IssueHeader, BookIssued ''B101'' ''S101'', SaveIssuedRecords [(''S101'', {''B101''})]]"
    by simp
  from issue_then_return_restores [OF r i m, of "[]" "[]"] r i
  show ?thesis by (simp add: str_defs)
qed

section \<open>Saving and reloading\<close>

text \<open>The catalog half of the round trip holds: a catalog of trimmed fields without a
  bar or a line break is loaded as it was saved.\<close>

lemma translate_newlines_id: "CR \<notin> set s \<Longrightarrow> translate_newlines s = s"
  by (induction s rule: translate_newlines.induct) auto

lemma readlines_line:
  "LF \<notin> set l \<Longrightarrow> readlines (l @ LF # rest) = (l @ [LF]) # readlines rest"
  by (induction l) auto

lemma str_split_field:
  "sep \<notin> set a \<Longrightarrow> str_split sep (a @ sep # rest) = a # str_split sep rest"
  by (induction a) auto

lemma str_split_last: "sep \<notin> set a \<Longrightarrow> str_split sep a = [a]"
  by (induction a) auto

lemma dropWhile_id: "xs = [] \<or> \<not> P (hd xs) \<Longrightarrow> dropWhile P xs = xs"
  by (cases xs) auto

lemma str_strip_line:
  assumes "x \<noteq> []" and "\<not> isspace (hd x)" and "\<not> isspace (last x)"
  shows "str_strip (x @ [LF]) = x"
proof -
  from assms(1,2) have 1: "dropWhile isspace (x @ [LF]) = x @ [LF]"
    by (intro dropWhile_id) simp
  have 2: "isspace LF" by (simp add: isspace_def LF_def)
  from assms(1,3) have 3: "dropWhile isspace (rev x) = rev x"
    by (intro dropWhile_id) (simp add: hd_rev)
  show ?thesis by (simp add: str_strip_def 1 2 3)
qed

lemma stripped_ends:
  assumes "str_strip f = f" and "f \<noteq> []"
  shows "\<not> isspace (hd f)" and "\<not> isspace (last f)"
proof -
  have len: "length (dropWhile isspace (rev (dropWhile isspace f))) = length f"
    using assms(1) by (metis length_rev str_strip_def)
  have le1: "length (dropWhile isspace f) \<le> length f" by (rule length_dropWhile_le)
  have le2: "length (dropWhile isspace (rev (dropWhile isspace f)))
               \<le> length (dropWhile isspace f)"
    using length_dropWhile_le [of isspace "rev (dropWhile isspace f)"] by simp
  from len le1 le2 have e1: "length (dropWhile isspace f) = length f" by simp
  show h: "\<not> isspace (hd f)"
  proof
    assume "isspace (hd f)"
    with assms(2) have "dropWhile isspace f = dropWhile isspace (tl f)" by (cases f) simp_all
    then have "length (dropWhile isspace f) \<le> length (tl f)"
      using length_dropWhile_le [of isspace "tl f"] by simp
    with e1 assms(2) show False by (cases f) simp_all
  qed
  with assms(2) have d: "dropWhile isspace f = f" by (intro dropWhile_id) simp
  show "\<not> isspace (last f)"
  proof
    assume sp: "isspace (last f)"
    from assms(2) obtain c cs where r: "rev f = c # cs" by (cases "rev f") simp_all
    have "hd (rev f) = last f" by (simp add: hd_rev)
    with r sp have "isspace c" by simp
    with r have "dropWhile isspace (rev f) = dropWhile isspace cs" by simp
    then have "length (dropWhile isspace (rev f)) \<le> length cs"
      using length_dropWhile_le [of isspace cs] by simp
    moreover from r have "length f = Suc (length cs)"
      by (metis length_Cons length_rev)
    moreover from len d have "length (dropWhile isspace (rev f)) = length f" by simp
    ultimately show False by simp
  qed
qed

lemma catalog_line_entry:
  assumes "plain_book b"
  shows "catalog_line books (id' b @ ''|'' @ title b @ ''|'' @ author b @ [LF]) = books @ [b]"
proof -
  define x where "x = id' b @ CHR ''|'' # title b @ CHR ''|'' # author b"
  from assms have i: "str_strip (id' b) = id' b" "CHR ''|'' \<notin> set (id' b)"
    and t: "str_strip (title b) = title b" "CHR ''|'' \<notin> set (title b)"
    and a: "str_strip (author b) = author b" "CHR ''|'' \<notin> set (author b)"
    by (simp_all add: plain_book_def plain_field_def)
  have bar: "\<not> isspace (CHR ''|'')" by (simp add: isspace_def)
  have ne: "x \<noteq> []" by (simp add: x_def)
  have h: "\<not> isspace (hd x)"
  proof (cases "id' b = []")
    case True
    with bar show ?thesis by (simp add: x_def)
  next
    case False
    with stripped_ends(1) [OF i(1)] show ?thesis by (simp add: x_def)
  qed
  have l: "\<not> isspace (last x)"
  proof (cases "author b = []")
    case True
    with bar show ?thesis by (simp add: x_def)
  next
    case False
    with stripped_ends(2) [OF a(1)] show ?thesis by (simp add: x_def)
  qed
  have s: "str_strip (x @ [LF]) = x" using ne h l by (rule str_strip_line)
  have p: "str_split (CHR ''|'') x = [id' b, title b, author b]"
    by (simp add: x_def str_split_field str_split_last i(2) t(2) a(2))
  have "catalog_line books (x @ [LF]) = books @ [b]"
    by (simp add: catalog_line_def s p i(1) t(1) a(1))
  then show ?thesis by (simp add: x_def)
qed

lemma readlines_save_catalog:
  assumes "\<forall>b \<in> set books. plain_book b"
  shows "readlines (save_catalog books)
           = map (\<lambda>b. id' b @ ''|'' @ title b @ ''|'' @ author b @ [LF]) books"
  using assms
proof (induction books)
  case Nil
  then show ?case by (simp add: save_catalog_def)
next
  case (Cons b books)
  then have "LF \<notin> set (id' b @ ''|'' @ title b @ ''|'' @ author b)"
    by (simp add: plain_book_def plain_field_def LF_def)
  from readlines_line [OF this, of "save_catalog books"] Cons
  show ?case by (simp add: save_catalog_def)
qed

lemma save_catalog_no_CR:
  assumes "\<forall>b \<in> set books. plain_book b"
  shows "CR \<notin> set (save_catalog books)"
  using assms
  by (induction books) (simp_all add: save_catalog_def plain_book_def plain_field_def CR_def LF_def)

lemma foldl_catalog_line:
  assumes "\<forall>b \<in> set books. plain_book b"
  shows "foldl catalog_line acc
           (map (\<lambda>b. id' b @ ''|'' @ title b @ ''|'' @ author b @ [LF]) books) = acc @ books"
  using assms
proof (induction books arbitrary: acc)
  case Nil
  then show ?case by simp
next
  case (Cons b books)
  then have "plain_book b" by simp
  from catalog_line_entry [OF this, of acc] Cons show ?case by simp
qed

lemma catalog_round_trip:
  assumes "\<forall>b \<in> set books. plain_book b"
  shows "load_catalog (Content (save_catalog books)) = ([], books)"
proof -
  have "load_catalog (Content (save_catalog books))
          = ([], foldl catalog_line [] (readlines (save_catalog books)))"
    by (simp add: translate_newlines_id save_catalog_no_CR assms)
  also have "\<dots> = ([], [] @ books)"
    unfolding readlines_save_catalog [OF assms] foldl_catalog_line [OF assms] ..
  finally show ?thesis by simp
qed

text \<open>
  C1: saving the catalog and the issued records and loading both files again should give
  back the state that was saved.  It does not: \<open>_save_issued_records\<close> writes a space
  after the colon, and \<open>_load_issued_records\<close> strips the line and the student id but
  not the book ids, so the first book id of every student comes back with a space in
  front.  Here the state is the one after adding \<open>B101\<close> and issuing it to \<open>S101\<close>
  (a set of one element has one iteration order).
\<close>

theorem reload_puts_space_before_book_id:
  "Library_init
     (Content (save_catalog [\<lparr>id' = ''B101'', title = ''Python Guide'', author = ''G V''\<rparr>]))
     (Content (save_issued_records sorted_list_of_set [(''S101'', {''B101''})]))
   = ([], \<lparr>catalog = [\<lparr>id' = ''B101'', title = ''Python Guide'', author = ''G V''\<rparr>],
           available_book_ids = {''B101''},
           issued_records = [(''S101'', {'' B101''})]\<rparr>)
   \<and> save_issued_records sorted_list_of_set [(''S101'', {''B101''})] = ''S101: B101'' @ [LF]
   \<and> [(''S101'', {'' B101''})] \<noteq> [(''S101'', {''B101''})]"
  by (simp add: Library_init_def save_catalog_def save_issued_records_def catalog_line_def
        issued_line_def str_defs)

section \<open>Issuing a book\<close>

text \<open>
  C3, as the code has it: \<open>issue_book\<close> reports that the book is not found when the
  typed book id, trimmed and uppercased, is the id of no catalog entry; it reports that
  the book is already issued when that id is in the catalog and is a member of the
  issued set of any student, whoever asks.  In both cases the library, and with it
  \<open>issued_records\<close>, is left as it was.
\<close>

theorem issue_book_failures:
  assumes "str_upper (str_strip b) = book_id"
  shows "(book_id \<notin> id' ` set (catalog L) \<longrightarrow>
            issue_book L (s # b # ins) = ([IssueHeader, BookNotFound book_id], Inr (L, ins)))
         \<and> (book_id \<in> id' ` set (catalog L)
              \<and> (\<exists>(student, issued_set) \<in> set (issued_records L). book_id \<in> issued_set) \<longrightarrow>
            issue_book L (s # b # ins) = ([IssueHeader, BookAlreadyIssued book_id], Inr (L, ins)))"
proof (intro conjI impI)
  assume "book_id \<notin> id' ` set (catalog L)"
  then have "\<not> list_ex (\<lambda>book. id' book = book_id) (catalog L)"
    by (auto simp: list_ex_iff)
  then show "issue_book L (s # b # ins) = ([IssueHeader, BookNotFound book_id], Inr (L, ins))"
    by (simp add: assms [symmetric] Let_def)
next
  assume a: "book_id \<in> id' ` set (catalog L)
             \<and> (\<exists>(student, issued_set) \<in> set (issued_records L). book_id \<in> issued_set)"
  then have "list_ex (\<lambda>book. id' book = book_id) (catalog L)"
    by (auto simp: list_ex_iff)
  moreover from a have "list_ex (\<lambda>issued_set. book_id \<in> issued_set) (map snd (issued_records L))"
    by (force simp: list_ex_iff)
  ultimately
  show "issue_book L (s # b # ins) = ([IssueHeader, BookAlreadyIssued book_id], Inr (L, ins))"
    by (simp add: assms [symmetric] Let_def)
qed

theorem issue_book_failures_witness:
  "str_upper (str_strip ''x1'') = ''X1''
   \<and> ''X1'' \<notin> id' ` set [\<lparr>id' = ''B101'', title = ''Python Guide'', author = ''G V''\<rparr>]
   \<and> issue_book \<lparr>catalog = [\<lparr>id' = ''B101'', title = ''Python Guide'', author = ''G V''\<rparr>],
                  available_book_ids = {''B101''}, issued_records = [(''S101'', {''B101''})]\<rparr>
        [''s102'', ''x1'']
      = ([IssueHeader, BookNotFound ''X1''],
         Inr (\<lparr>catalog = [\<lparr>id' = ''B101'', title = ''Python Guide'', author = ''G V''\<rparr>],
               available_book_ids = {''B101''}, issued_records = [(''S101'', {''B101''})]\<rparr>, []))
   \<and> str_upper (str_strip '' b101'') = ''B101''
   \<and> ''B101'' \<in> id' ` set [\<lparr>id' = ''B101'', title = ''Python Guide'', author = ''G V''\<rparr>]
   \<and> (\<exists>(student, issued_set) \<in> set [(''S101'', {''B101''})]. ''B101'' \<in> issued_set)
   \<and> issue_book \<lparr>catalog = [\<lparr>id' = ''B101'', title = ''Python Guide'', author = ''G V''\<rparr>],
                  available_book_ids = {''B101''}, issued_records = [(''S101'', {''B101''})]\<rparr>
        [''s102'', '' b101'']
      = ([IssueHeader, BookAlreadyIssued ''B101''],
         Inr (\<lparr>catalog = [\<lparr>id' = ''B101'', title = ''Python Guide'', author = ''G V''\<rparr>],
               available_book_ids = {''B101''}, issued_records = [(''S101'', {''B101''})]\<rparr>, []))"
proof -
  let ?L = "\<lparr>catalog = [\<lparr>id' = ''B101'', title = ''Python Guide'', author = ''G V''\<rparr>],
             available_book_ids = {''B101''}, issued_records = [(''S101'', {''B101''})]\<rparr>"
  have x: "str_upper (str_strip ''x1'') = ''X1''" by (simp add: str_defs)
  have b: "str_upper (str_strip '' b101'') = ''B101''" by (simp add: str_defs)
  from issue_book_failures [OF x, of ?L "''s102''" "[]"]
       issue_book_failures [OF b, of ?L "''s102''" "[]"] x b
  show ?thesis by simp
qed

text \<open>
  The catalog is looked at first: a book id that is in a student's issued set but not in
  the catalog (the issued-records file names a book the catalog file does not) is
  reported as not found, not as already issued.
\<close>

theorem issue_book_already_issued_counterexample:
  "Library_init Missing (Content ''S1:B9'')
     = ([], \<lparr>catalog = [], available_book_ids = {}, issued_records = [(''S1'', {''B9''})]\<rparr>)
   \<and> ''B9'' \<in> \<Union> (snd ` set [(''S1'', {''B9''})])
   \<and> issue_book \<lparr>catalog = [], available_book_ids = {}, issued_records = [(''S1'', {''B9''})]\<rparr>
                 [''S2'', ''B9'']
       = ([IssueHeader, BookNotFound ''B9''],
          Inr (\<lparr>catalog = [], available_book_ids = {}, issued_records = [(''S1'', {''B9''})]\<rparr>, []))"
  by (simp add: Library_init_def issued_line_def str_defs)

section \<open>Returning a book\<close>

text \<open>
  C4: \<open>return_book\<close> reports that the student has no records when the student id is no
  key of \<open>issued_records\<close>, and that the book was not issued to the student when the
  book id is not in the student's set; either way the library is left as it was.
  Otherwise the book id is taken out of the student's set, and when the set is empty
  after that the student's key is deleted: the dictionary then has no entry for the
  student, rather than an entry with an empty set.  Every other key keeps its set.
\<close>

theorem return_book_cases:
  assumes "str_upper (str_strip s) = student_id" and "str_upper (str_strip b) = book_id"
  shows "(map_of (issued_records L) student_id = None \<longrightarrow>
            return_book L (s # b # ins)
              = ([ReturnHeader, StudentHasNoRecords student_id], Inr (L, ins)))
         \<and> (\<forall>issued_set. map_of (issued_records L) student_id = Some issued_set
                \<and> book_id \<notin> issued_set \<longrightarrow>
            return_book L (s # b # ins)
              = ([ReturnHeader, BookNotIssuedToStudent book_id student_id], Inr (L, ins)))
         \<and> (\<forall>issued_set. map_of (issued_records L) student_id = Some issued_set
                \<and> book_id \<in> issued_set \<longrightarrow>
            (\<exists>L'. return_book L (s # b # ins)
                     = ([ReturnHeader, BookReturned book_id student_id,
                         SaveIssuedRecords (issued_records L')], Inr (L', ins))
                  \<and> catalog L' = catalog L
                  \<and> available_book_ids L' = available_book_ids L
                  \<and> map_of (issued_records L') =
                      (if issued_set - {book_id} = {}
                       then (map_of (issued_records L))(student_id := None)
                       else (map_of (issued_records L))(student_id \<mapsto> issued_set - {book_id}))))"
proof (intro conjI allI impI)
  assume "map_of (issued_records L) student_id = None"
  then show "return_book L (s # b # ins)
               = ([ReturnHeader, StudentHasNoRecords student_id], Inr (L, ins))"
    by (simp add: assms Let_def)
next
  fix issued_set
  assume "map_of (issued_records L) student_id = Some issued_set \<and> book_id \<notin> issued_set"
  then show "return_book L (s # b # ins)
               = ([ReturnHeader, BookNotIssuedToStudent book_id student_id], Inr (L, ins))"
    by (simp add: assms Let_def)
next
  fix issued_set
  assume a: "map_of (issued_records L) student_id = Some issued_set \<and> book_id \<in> issued_set"
  define records where
    "records = (if issued_set - {book_id} = {} then AList.delete student_id (issued_records L)
                else AList.update student_id (issued_set - {book_id}) (issued_records L))"
  have "return_book L (s # b # ins)
          = ([ReturnHeader, BookReturned book_id student_id, SaveIssuedRecords records],
             Inr (L\<lparr>issued_records := records\<rparr>, ins))"
    using a by (simp add: assms Let_def records_def delete_update_same)
  moreover have "map_of records =
      (if issued_set - {book_id} = {}
       then (map_of (issued_records L))(student_id := None)
       else (map_of (issued_records L))(student_id \<mapsto> issued_set - {book_id}))"
    by (simp add: records_def update_conv' delete_conv')
  ultimately
  show "\<exists>L'. return_book L (s # b # ins)
               = ([ReturnHeader, BookReturned book_id student_id,
                   SaveIssuedRecords (issued_records L')], Inr (L', ins))
            \<and> catalog L' = catalog L
            \<and> available_book_ids L' = available_book_ids L
            \<and> map_of (issued_records L') =
                (if issued_set - {book_id} = {}
                 then (map_of (issued_records L))(student_id := None)
                 else (map_of (issued_records L))(student_id \<mapsto> issued_set - {book_id}))"
    by (intro exI [of _ "L\<lparr>issued_records := records\<rparr>"]) simp
qed

theorem return_book_cases_witness:
  "str_upper (str_strip ''s101 '') = ''S101'' \<and> str_upper (str_strip ''b7'') = ''B7''
   \<and> str_upper (str_strip ''s9'') = ''S9'' \<and> str_upper (str_strip ''b2'') = ''B2''
   \<and> map_of [(''S101'', {''B1'', ''B2''}), (''S102'', {''B3''})] ''S9'' = None
   \<and> return_book \<lparr>catalog = [], available_book_ids = {},
                   issued_records = [(''S101'', {''B1'', ''B2''}), (''S102'', {''B3''})]\<rparr>
        [''s9'', ''b2'']
      = ([ReturnHeader, StudentHasNoRecords ''S9''],
         Inr (\<lparr>catalog = [], available_book_ids = {},
               issued_records = [(''S101'', {''B1'', ''B2''}), (''S102'', {''B3''})]\<rparr>, []))
   \<and> map_of [(''S101'', {''B1'', ''B2''}), (''S102'', {''B3''})] ''S101'' = Some {''B1'', ''B2''}
   \<and> ''B7'' \<notin> {''B1'', ''B2''}
   \<and> return_book \<lparr>catalog = [], available_book_ids = {},
                   issued_records = [(''S101'', {''B1'', ''B2''}), (''S102'', {''B3''})]\<rparr>
        [''s101 '', ''b7'']
      = ([ReturnHeader, BookNotIssuedToStudent ''B7'' ''S101''],
         Inr (\<lparr>catalog = [], available_book_ids = {},
               issued_records = [(''S101'', {''B1'', ''B2''}), (''S102'', {''B3''})]\<rparr>, []))
   \<and> ''B2'' \<in> {''B1'', ''B2''}
   \<and> (\<exists>L'. return_book \<lparr>catalog = [], available_book_ids = {},
                   issued_records = [(''S101'', {''B1'', ''B2''}), (''S102'', {''B3''})]\<rparr>
               [''s101 '', ''b2'']
             = ([ReturnHeader, BookReturned ''B2'' ''S101'', SaveIssuedRecords (issued_records L')],
                Inr (L', []))
           \<and> map_of (issued_records L') ''S101'' = Some {''B1''}
           \<and> map_of (issued_records L') ''S102'' = Some {''B3''})
   \<and> (\<exists>L'. return_book \<lparr>catalog = [], available_book_ids = {},
                   issued_records = [(''S101'', {''B1'', ''B2''}), (''S102'', {''B3''})]\<rparr>
               [''s102'', ''b3'']
             = ([ReturnHeader, BookReturned ''B3'' ''S102'', SaveIssuedRecords (issued_records L')],
                Inr (L', []))
           \<and> map_of (issued_records L') ''S101'' = Some {''B1'', ''B2''}
           \<and> map_of (issued_records L') ''S102'' = None)"
proof -
  let ?L = "\<lparr>catalog = [], available_book_ids = {},
             issued_records = [(''S101'', {''B1'', ''B2''}), (''S102'', {''B3''})]\<rparr>"
  have s: "str_upper (str_strip ''s101 '') = ''S101''" by (simp add: str_defs)
  have s9: "str_upper (str_strip ''s9'') = ''S9''" by (simp add: str_defs)
  have b7: "str_upper (str_strip ''b7'') = ''B7''" by (simp add: str_defs)
  have b2: "str_upper (str_strip ''b2'') = ''B2''" by (simp add: str_defs)
  have d: "{''B1'', ''B2''} - {''B2''} = {''B1''}" by auto
  from return_book_cases [OF s9 b2, of ?L "[]"]
  have 1: "return_book ?L [''s9'', ''b2'']
           = ([ReturnHeader, StudentHasNoRecords ''S9''], Inr (?L, []))" by simp
  from return_book_cases [OF s b7, of ?L "[]"]
  have 2: "return_book ?L [''s101 '', ''b7'']
           = ([ReturnHeader, BookNotIssuedToStudent ''B7'' ''S101''], Inr (?L, []))" by simp
  from return_book_cases [OF s b2, of ?L "[]"]
  obtain L' where
    "return_book ?L [''s101 '', ''b2'']
       = ([ReturnHeader, BookReturned ''B2'' ''S101'', SaveIssuedRecords (issued_records L')],
          Inr (L', []))"
    and "map_of (issued_records L') = [''S102'' \<mapsto> {''B3''}, ''S101'' \<mapsto> {''B1''}]"
    by (auto simp add: d simp del: return_book.simps)
  then have 3: "\<exists>L'. return_book ?L [''s101 '', ''b2'']
             = ([ReturnHeader, BookReturned ''B2'' ''S101'', SaveIssuedRecords (issued_records L')],
                Inr (L', []))
           \<and> map_of (issued_records L') ''S101'' = Some {''B1''}
           \<and> map_of (issued_records L') ''S102'' = Some {''B3''}"
    by (intro exI [of _ L']) (simp del: return_book.simps)
  have s2: "str_upper (str_strip ''s102'') = ''S102''" by (simp add: str_defs)
  have b3: "str_upper (str_strip ''b3'') = ''B3''" by (simp add: str_defs)
  from return_book_cases [OF s2 b3, of ?L "[]"]
  obtain L'' where
    "return_book ?L [''s102'', ''b3'']
       = ([ReturnHeader, BookReturned ''B3'' ''S102'', SaveIssuedRecords (issued_records L'')],
          Inr (L'', []))"
    and "map_of (issued_records L'') = [''S101'' \<mapsto> {''B1'', ''B2''}]"
    by (auto simp del: return_book.simps)
  then have 4: "\<exists>L'. return_book ?L [''s102'', ''b3'']
             = ([ReturnHeader, BookReturned ''B3'' ''S102'', SaveIssuedRecords (issued_records L')],
                Inr (L', []))
           \<and> map_of (issued_records L') ''S101'' = Some {''B1'', ''B2''}
           \<and> map_of (issued_records L') ''S102'' = None"
    by (intro exI [of _ L'']) (simp del: return_book.simps)
  from 1 2 s s9 b7 b2 have "str_upper (str_strip ''s101 '') = ''S101'' \<and> str_upper (str_strip ''b7'') = ''B7''
   \<and> str_upper (str_strip ''s9'') = ''S9'' \<and> str_upper (str_strip ''b2'') = ''B2''
   \<and> map_of [(''S101'', {''B1'', ''B2''}), (''S102'', {''B3''})] ''S9'' = None
   \<and> return_book ?L [''s9'', ''b2'']
      = ([ReturnHeader, StudentHasNoRecords ''S9''], Inr (?L, []))
   \<and> map_of [(''S101'', {''B1'', ''B2''}), (''S102'', {''B3''})] ''S101'' = Some {''B1'', ''B2''}
   \<and> ''B7'' \<notin> {''B1'', ''B2''}
   \<and> return_book ?L [''s101 '', ''b7'']
      = ([ReturnHeader, BookNotIssuedToStudent ''B7'' ''S101''], Inr (?L, []))
   \<and> ''B2'' \<in> {''B1'', ''B2''}"
    by (simp del: return_book.simps)
  with 3 4 show ?thesis by blast
qed

section \<open>Adding a book\<close>

lemma read_book_id_fresh:
  "read_book_id L ins = (out, Inr (book_id, rest)) \<Longrightarrow> book_id \<notin> available_book_ids L"
proof (induction ins arbitrary: out)
  case Nil
  then show ?case by simp
next
  case (Cons l ins)
  show ?case
  proof (cases "str_upper (str_strip l) \<in> available_book_ids L")
    case True
    with Cons.prems obtain out' where "read_book_id L ins = (out', Inr (book_id, rest))"
      by (cases "read_book_id L ins") (simp add: Let_def)
    then show ?thesis by (rule Cons.IH)
  next
    case False
    with Cons.prems show ?thesis by (auto simp: Let_def)
  qed
qed

lemma add_book_returns:
  assumes "add_book L ins = (out, Inr (L', ins'))"
  shows "\<exists>book. id' book \<notin> available_book_ids L
               \<and> L' = L\<lparr>catalog := catalog L @ [book],
                         available_book_ids := insert (id' book) (available_book_ids L)\<rparr>"
proof -
  obtain out1 r where rd: "read_book_id L ins = (out1, r)" by (cases "read_book_id L ins")
  show ?thesis
  proof (cases r)
    case (Inl e)
    with rd assms show ?thesis by (simp add: add_book_def)
  next
    case (Inr p)
    obtain i ins1 where p: "p = (i, ins1)" by (cases p)
    with Inr rd have "i \<notin> available_book_ids L" by (simp add: read_book_id_fresh)
    moreover from Inr p rd assms
    have "\<exists>t a. L' = L\<lparr>catalog := catalog L @ [\<lparr>id' = i, title = t, author = a\<rparr>],
                         available_book_ids := insert i (available_book_ids L)\<rparr>"
      by (auto simp: add_book_def Let_def split: list.splits)
    ultimately show ?thesis
      by (metis book.select_convs(1))
  qed
qed

text \<open>
  C5, as the code has it: an id that, trimmed and uppercased, is already in
  \<open>available_book_ids\<close> is reported as a duplicate and is not added: the loop of
  \<open>add_book\<close> asks for another id with the library it had, and apart from the report
  the call prints, leaves and raises what a call from the same library on the remaining
  input does.  When the call returns, it has appended one book whose id is not the
  rejected one and was not in \<open>available_book_ids\<close>, has added that id to
  \<open>available_book_ids\<close>, and has left \<open>issued_records\<close> as it was.
\<close>

theorem add_book_duplicate_id:
  assumes "str_upper (str_strip l) = book_id" and "book_id \<in> available_book_ids L"
  shows "read_book_id L (l # ins)
           = (DuplicateId book_id # fst (read_book_id L ins), snd (read_book_id L ins))
         \<and> (\<exists>out r. add_book L ins = (AddHeader # out, r)
                  \<and> add_book L (l # ins) = (AddHeader # DuplicateId book_id # out, r))
         \<and> (\<forall>out' L' ins'. add_book L (l # ins) = (out', Inr (L', ins')) \<longrightarrow>
               issued_records L' = issued_records L
               \<and> (\<exists>book. id' book \<noteq> book_id
                     \<and> id' book \<notin> available_book_ids L
                     \<and> catalog L' = catalog L @ [book]
                     \<and> available_book_ids L' = insert (id' book) (available_book_ids L)))"
proof -
  obtain out r where rd: "read_book_id L ins = (out, r)" by (cases "read_book_id L ins")
  then have d: "read_book_id L (l # ins) = (DuplicateId book_id # out, r)"
    using assms by (simp add: Let_def)
  have 2: "\<exists>out r. add_book L ins = (AddHeader # out, r)
                \<and> add_book L (l # ins) = (AddHeader # DuplicateId book_id # out, r)"
  proof (cases r)
    case (Inl e)
    with rd d show ?thesis by (simp add: add_book_def)
  next
    case (Inr p)
    obtain i ins1 where "p = (i, ins1)" by (cases p)
    with Inr rd d show ?thesis
      by (simp add: add_book_def Let_def split: list.splits)
  qed
  have 3: "issued_records L' = issued_records L
           \<and> (\<exists>book. id' book \<noteq> book_id
                 \<and> id' book \<notin> available_book_ids L
                 \<and> catalog L' = catalog L @ [book]
                 \<and> available_book_ids L' = insert (id' book) (available_book_ids L))"
    if ret: "add_book L (l # ins) = (out', Inr (L', ins'))" for out' L' ins'
  proof -
    from add_book_returns [OF ret] obtain book where
      f: "id' book \<notin> available_book_ids L"
      and L': "L' = L\<lparr>catalog := catalog L @ [book],
                       available_book_ids := insert (id' book) (available_book_ids L)\<rparr>"
      by blast
    from f assms(2) have "id' book \<noteq> book_id" by blast
    with f L' show ?thesis by (intro conjI exI [of _ book]) simp_all
  qed
  from rd d 2 3 show ?thesis by simp
qed

theorem add_book_duplicate_id_witness:
  "str_upper (str_strip ''b101 '') = ''B101''
   \<and> ''B101'' \<in> available_book_ids
        \<lparr>catalog = [\<lparr>id' = ''B101'', title = ''Python Guide'', author = ''G V''\<rparr>],
         available_book_ids = {''B101''}, issued_records = [(''S101'', {''B101''})]\<rparr>
   \<and> add_book \<lparr>catalog = [\<lparr>id' = ''B101'', title = ''Python Guide'', author = ''G V''\<rparr>],
                available_book_ids = {''B101''}, issued_records = [(''S101'', {''B101''})]\<rparr>
        [''b101 '']
      = ([AddHeader, DuplicateId ''B101''], Inl EOFError)
   \<and> add_book \<lparr>catalog = [\<lparr>id' = ''B101'', title = ''Python Guide'', author = ''G V''\<rparr>],
                available_book_ids = {''B101''}, issued_records = [(''S101'', {''B101''})]\<rparr>
        [''b101 '', ''b102'', ''t'', ''a'']
      = ([AddHeader, DuplicateId ''B101'', BookAdded ''T'' ''A'',
          SaveCatalog [\<lparr>id' = ''B101'', title = ''Python Guide'', author = ''G V''\<rparr>,
                       \<lparr>id' = ''B102'', title = ''T'', author = ''A''\<rparr>]],
         Inr (\<lparr>catalog = [\<lparr>id' = ''B101'', title = ''Python Guide'', author = ''G V''\<rparr>,
                          \<lparr>id' = ''B102'', title = ''T'', author = ''A''\<rparr>],
               available_book_ids = {''B102'', ''B101''},
               issued_records = [(''S101'', {''B101''})]\<rparr>, []))
   \<and> (\<exists>book. id' book \<noteq> ''B101''
          \<and> [\<lparr>id' = ''B101'', title = ''Python Guide'', author = ''G V''\<rparr>,
              \<lparr>id' = ''B102'', title = ''T'', author = ''A''\<rparr>]
            = [\<lparr>id' = ''B101'', title = ''Python Guide'', author = ''G V''\<rparr>] @ [book])"
proof -
  let ?L = "\<lparr>catalog = [\<lparr>id' = ''B101'', title = ''Python Guide'', author = ''G V''\<rparr>],
             available_book_ids = {''B101''}, issued_records = [(''S101'', {''B101''})]\<rparr>"
  let ?L1 = "\<lparr>catalog = [\<lparr>id' = ''B101'', title = ''Python Guide'', author = ''G V''\<rparr>,
                          \<lparr>id' = ''B102'', title = ''T'', author = ''A''\<rparr>],
              available_book_ids = {''B102'', ''B101''},
              issued_records = [(''S101'', {''B101''})]\<rparr>"
  let ?out = "[BookAdded ''T'' ''A'',
               SaveCatalog [\<lparr>id' = ''B101'', title = ''Python Guide'', author = ''G V''\<rparr>,
                            \<lparr>id' = ''B102'', title = ''T'', author = ''A''\<rparr>]]"
  have n: "str_upper (str_strip ''b101 '') = ''B101''" by (simp add: str_defs)
  have m: "''B101'' \<in> available_book_ids ?L" by simp
  have e: "add_book ?L [] = ([AddHeader], Inl EOFError)" by (simp add: add_book_def)
  have f: "add_book ?L [''b102'', ''t'', ''a''] = (AddHeader # ?out, Inr (?L1, []))"
    by (simp add: add_book_def str_defs)
  note thm0 = add_book_duplicate_id [OF n m, of "[]"]
  note thm1 = add_book_duplicate_id [OF n m, of "[''b102'', ''t'', ''a'']"]
  from thm0 [THEN conjunct2, THEN conjunct1] e
  have 1: "add_book ?L [''b101 ''] = ([AddHeader, DuplicateId ''B101''], Inl EOFError)"
    by auto
  from thm1 [THEN conjunct2, THEN conjunct1] f
  have 2: "add_book ?L [''b101 '', ''b102'', ''t'', ''a'']
             = (AddHeader # DuplicateId ''B101'' # ?out, Inr (?L1, []))"
    by auto
  from thm1 [THEN conjunct2, THEN conjunct2, rule_format, OF 2]
  have 3: "\<exists>book. id' book \<noteq> ''B101'' \<and> catalog ?L1 = catalog ?L @ [book]"
    by blast
  from n m 1 2 3 show ?thesis by simp
qed

text \<open>
  The call does not end at the report: with a duplicate id followed by a new one, the
  duplicate is reported and the catalog and \<open>available_book_ids\<close> grow by the new
  book in the same call.
\<close>

theorem add_book_duplicate_id_counterexample:
  "str_upper (str_strip ''b101 '') = ''B101''
   \<and> ''B101'' \<in> available_book_ids
        \<lparr>catalog = [\<lparr>id' = ''B101'', title = ''Python Guide'', author = ''G V''\<rparr>],
         available_book_ids = {''B101''}, issued_records = []\<rparr>
   \<and> add_book \<lparr>catalog = [\<lparr>id' = ''B101'', title = ''Python Guide'', author = ''G V''\<rparr>],
                available_book_ids = {''B101''}, issued_records = []\<rparr>
        [''b101 '', ''b102'', ''t'', ''a'']
      = ([AddHeader, DuplicateId ''B101'', BookAdded ''T'' ''A'',
          SaveCatalog [\<lparr>id' = ''B101'', title = ''Python Guide'', author = ''G V''\<rparr>,
                       \<lparr>id' = ''B102'', title = ''T'', author = ''A''\<rparr>]],
         Inr (\<lparr>catalog = [\<lparr>id' = ''B101'', title = ''Python Guide'', author = ''G V''\<rparr>,
                          \<lparr>id' = ''B102'', title = ''T'', author = ''A''\<rparr>],
               available_book_ids = {''B102'', ''B101''}, issued_records = []\<rparr>, []))
   \<and> [\<lparr>id' = ''B101'', title = ''Python Guide'', author = ''G V''\<rparr>,
       \<lparr>id' = ''B102'', title = ''T'', author = ''A''\<rparr>]
      \<noteq> [\<lparr>id' = ''B101'', title = ''Python Guide'', author = ''G V''\<rparr>]
   \<and> {''B102'', ''B101''} \<noteq> {''B101''}"
  by (simp add: add_book_def str_defs)

text \<open>
  C6: with an id that is not in \<open>available_book_ids\<close>, \<open>add_book\<close> appends one book to
  the end of the catalog, its id the typed id trimmed and uppercased, its title and
  author the typed ones trimmed and put in title case, and adds the id to
  \<open>available_book_ids\<close>; nothing else changes.  From the empty library (no file on
  disk) the input \<open>B101\<close>, \<open>python guide\<close>, \<open>g v\<close> gives the catalog of the one book
  \<open>B101\<close>, \<open>Python Guide\<close>, \<open>G V\<close>, and the listing then shows that one entry.
\<close>

theorem add_book_fresh_id:
  assumes "str_upper (str_strip i) = book_id" and "book_id \<notin> available_book_ids L"
    and "str_title (str_strip t) = new_title" and "str_title (str_strip a) = new_author"
  shows "add_book L (i # t # a # ins)
           = ([AddHeader, BookAdded new_title new_author,
               SaveCatalog (catalog L @ [\<lparr>id' = book_id, title = new_title, author = new_author\<rparr>])],
              Inr (L\<lparr>catalog :=
                       catalog L @ [\<lparr>id' = book_id, title = new_title, author = new_author\<rparr>],
                     available_book_ids := insert book_id (available_book_ids L)\<rparr>, ins))
         \<and> add_book (snd (Library_init Missing Missing)) [''B101'', ''python guide'', ''g v'']
           = ([AddHeader, BookAdded ''Python Guide'' ''G V'',
               SaveCatalog [\<lparr>id' = ''B101'', title = ''Python Guide'', author = ''G V''\<rparr>]],
              Inr (\<lparr>catalog = [\<lparr>id' = ''B101'', title = ''Python Guide'', author = ''G V''\<rparr>],
                    available_book_ids = {''B101''}, issued_records = []\<rparr>, []))
         \<and> fst (display_available_books
                  \<lparr>catalog = [\<lparr>id' = ''B101'', title = ''Python Guide'', author = ''G V''\<rparr>],
                   available_book_ids = {''B101''}, issued_records = []\<rparr> [])
           = [DisplayHeader, TotalAvailable 1,
              Listing 1 \<lparr>id' = ''B101'', title = ''Python Guide'', author = ''G V''\<rparr>]"
proof (intro conjI)
  show "add_book L (i # t # a # ins)
           = ([AddHeader, BookAdded new_title new_author,
               SaveCatalog (catalog L @ [\<lparr>id' = book_id, title = new_title, author = new_author\<rparr>])],
              Inr (L\<lparr>catalog :=
                       catalog L @ [\<lparr>id' = book_id, title = new_title, author = new_author\<rparr>],
                     available_book_ids := insert book_id (available_book_ids L)\<rparr>, ins))"
    using assms by (simp add: add_book_def Let_def)
next
  show "add_book (snd (Library_init Missing Missing)) [''B101'', ''python guide'', ''g v'']
           = ([AddHeader, BookAdded ''Python Guide'' ''G V'',
               SaveCatalog [\<lparr>id' = ''B101'', title = ''Python Guide'', author = ''G V''\<rparr>]],
              Inr (\<lparr>catalog = [\<lparr>id' = ''B101'', title = ''Python Guide'', author = ''G V''\<rparr>],
                    available_book_ids = {''B101''}, issued_records = []\<rparr>, []))"
    by (simp add: add_book_def Library_init_def str_defs)
next
  show "fst (display_available_books
                  \<lparr>catalog = [\<lparr>id' = ''B101'', title = ''Python Guide'', author = ''G V''\<rparr>],
                   available_book_ids = {''B101''}, issued_records = []\<rparr> [])
           = [DisplayHeader, TotalAvailable 1,
              Listing 1 \<lparr>id' = ''B101'', title = ''Python Guide'', author = ''G V''\<rparr>]"
    by (simp add: display_available_books_def available_books_def issued_book_ids_def)
qed

theorem add_book_fresh_id_witness:
  "str_upper (str_strip '' b102'') = ''B102''
   \<and> ''B102'' \<notin> available_book_ids
        \<lparr>catalog = [\<lparr>id' = ''B101'', title = ''Python Guide'', author = ''G V''\<rparr>],
         available_book_ids = {''B101''}, issued_records = [(''S101'', {''B101''})]\<rparr>
   \<and> str_title (str_strip ''pYTHON in 3d '') = ''Python In 3D''
   \<and> str_title (str_strip ''g.v. rAO'') = ''G.V. Rao''
   \<and> add_book \<lparr>catalog = [\<lparr>id' = ''B101'', title = ''Python Guide'', author = ''G V''\<rparr>],
                available_book_ids = {''B101''}, issued_records = [(''S101'', {''B101''})]\<rparr>
        ['' b102'', ''pYTHON in 3d '', ''g.v. rAO'']
      = ([AddHeader, BookAdded ''Python In 3D'' ''G.V. Rao'',
          SaveCatalog [\<lparr>id' = ''B101'', title = ''Python Guide'', author = ''G V''\<rparr>,
                       \<lparr>id' = ''B102'', title = ''Python In 3D'', author = ''G.V. Rao''\<rparr>]],
         Inr (\<lparr>catalog = [\<lparr>id' = ''B101'', title = ''Python Guide'', author = ''G V''\<rparr>,
                          \<lparr>id' = ''B102'', title = ''Python In 3D'', author = ''G.V. Rao''\<rparr>],
               available_book_ids = {''B102'', ''B101''},
               issued_records = [(''S101'', {''B101''})]\<rparr>, []))"
proof -
  let ?L = "\<lparr>catalog = [\<lparr>id' = ''B101'', title = ''Python Guide'', author = ''G V''\<rparr>],
             available_book_ids = {''B101''}, issued_records = [(''S101'', {''B101''})]\<rparr>"
  have n: "str_upper (str_strip '' b102'') = ''B102''" by (simp add: str_defs)
  have m: "''B102'' \<notin> available_book_ids ?L" by simp
  have t: "str_title (str_strip ''pYTHON in 3d '') = ''Python In 3D''" by (simp add: str_defs)
  have a: "str_title (str_strip ''g.v. rAO'') = ''G.V. Rao''" by (simp add: str_defs)
  from add_book_fresh_id [OF n m t a, of "[]"]
  have "add_book ?L ['' b102'', ''pYTHON in 3d '', ''g.v. rAO'']
      = ([AddHeader, BookAdded ''Python In 3D'' ''G.V. Rao'',
          SaveCatalog [\<lparr>id' = ''B101'', title = ''Python Guide'', author = ''G V''\<rparr>,
                       \<lparr>id' = ''B102'', title = ''Python In 3D'', author = ''G.V. Rao''\<rparr>]],
         Inr (\<lparr>catalog = [\<lparr>id' = ''B101'', title = ''Python Guide'', author = ''G V''\<rparr>,
                          \<lparr>id' = ''B102'', title = ''Python In 3D'', author = ''G.V. Rao''\<rparr>],
               available_book_ids = {''B102'', ''B101''},
               issued_records = [(''S101'', {''B101''})]\<rparr>, []))"
    by simp
  with n m t a show ?thesis by simp
qed

section \<open>Listing the available books\<close>

lemma enumerate_from_one:
  "map (\<lambda>(i, x). f i x) (zip [1 ..< Suc (length xs)] xs)
     = map (\<lambda>i. f (i + 1) (xs ! i)) [0 ..< length xs]"
  by (rule nth_equalityI) (simp_all del: upt_Suc)

lemma issued_book_ids_iff:
  "x \<in> issued_book_ids L \<longleftrightarrow> (\<exists>(student, issued_set) \<in> set (issued_records L). x \<in> issued_set)"
  by (force simp: issued_book_ids_def)

text \<open>
  C7: \<open>display_available_books\<close> reports an empty catalog when the catalog has no
  entry.  Otherwise it takes the catalog entries whose id is in no student's issued set,
  in catalog order; when there is none it reports that all books are issued, and when
  there are some it prints their number and then one numbered line for each, counting
  from 1.  The library is left as it was.
\<close>

theorem display_available_books_listing:
  "display_available_books L ins =
     (DisplayHeader #
        (let avail = filter (\<lambda>book. \<not> (\<exists>(student, issued_set) \<in> set (issued_records L).
                                          id' book \<in> issued_set))
                            (catalog L)
         in if catalog L = [] then [CatalogEmpty]
            else if avail = [] then [AllIssued]
            else TotalAvailable (length avail)
                   # map (\<lambda>i. Listing (i + 1) (avail ! i)) [0 ..< length avail]),
      Inr (L, ins))"
proof -
  have "available_books L
          = filter (\<lambda>book. \<not> (\<exists>(student, issued_set) \<in> set (issued_records L).
                                 id' book \<in> issued_set)) (catalog L)"
    by (simp add: available_books_def issued_book_ids_iff)
  then have a: "filter (\<lambda>book. \<not> (\<exists>(student, issued_set) \<in> set (issued_records L).
                                 id' book \<in> issued_set)) (catalog L) = available_books L"
    by simp
  have e: "map (\<lambda>(i, book). Listing i book)
               (zip [1 ..< Suc (length (available_books L))] (available_books L))
             = map (\<lambda>i. Listing (i + 1) (available_books L ! i))
                   [0 ..< length (available_books L)]"
    by (rule enumerate_from_one)
  show ?thesis
    unfolding display_available_books_def e a Let_def by simp
qed

theorem display_available_books_listing_witness:
  "fst (display_available_books \<lparr>catalog = [], available_book_ids = {},
                                  issued_records = [(''S1'', {''B9''})]\<rparr> [])
     = [DisplayHeader, CatalogEmpty]
   \<and> fst (display_available_books
            \<lparr>catalog = [\<lparr>id' = ''B1'', title = ''T1'', author = ''A1''\<rparr>,
                        \<lparr>id' = ''B2'', title = ''T2'', author = ''A2''\<rparr>],
             available_book_ids = {''B1'', ''B2''},
             issued_records = [(''S1'', {''B2''}), (''S2'', {''B1''})]\<rparr> [])
     = [DisplayHeader, AllIssued]
   \<and> fst (display_available_books
            \<lparr>catalog = [\<lparr>id' = ''B1'', title = ''T1'', author = ''A1''\<rparr>,
                        \<lparr>id' = ''B2'', title = ''T2'', author = ''A2''\<rparr>,
                        \<lparr>id' = ''B3'', title = ''T3'', author = ''A3''\<rparr>],
             available_book_ids = {''B1'', ''B2'', ''B3''},
             issued_records = [(''S1'', {''B2''})]\<rparr> [])
     = [DisplayHeader, TotalAvailable 2,
        Listing 1 \<lparr>id' = ''B1'', title = ''T1'', author = ''A1''\<rparr>,
        Listing 2 \<lparr>id' = ''B3'', title = ''T3'', author = ''A3''\<rparr>]"
proof -
  have u: "[0 ..< 2] = [0, Suc 0]" by (simp add: upt_rec)
  show ?thesis
    by (simp add: display_available_books_listing u)
qed

text \<open>
  C8: with no entry at all in \<open>issued_records\<close> the union of the issued book ids is the
  empty set, and \<open>display_available_books\<close> returns normally and lists every catalog
  book.
\<close>

theorem display_without_issued_records:
  assumes "issued_records L = []"
  shows "issued_book_ids L = {}
         \<and> display_available_books L ins =
             (DisplayHeader #
                (if catalog L = [] then [CatalogEmpty]
                 else TotalAvailable (length (catalog L))
                        # map (\<lambda>i. Listing (i + 1) (catalog L ! i)) [0 ..< length (catalog L)]),
              Inr (L, ins))"
proof -
  have i: "issued_book_ids L = {}"
    using assms by (simp add: issued_book_ids_def)
  then have a: "available_books L = catalog L"
    by (simp add: available_books_def)
  have e: "map (\<lambda>(i, book). Listing i book)
               (zip [1 ..< Suc (length (catalog L))] (catalog L))
             = map (\<lambda>i. Listing (i + 1) (catalog L ! i)) [0 ..< length (catalog L)]"
    by (rule enumerate_from_one)
  have "display_available_books L ins =
             (DisplayHeader #
                (if catalog L = [] then [CatalogEmpty]
                 else TotalAvailable (length (catalog L))
                        # map (\<lambda>i. Listing (i + 1) (catalog L ! i)) [0 ..< length (catalog L)]),
              Inr (L, ins))"
    unfolding display_available_books_def a e by simp
  with i show ?thesis by simp
qed

theorem display_without_issued_records_witness:
  "issued_records \<lparr>catalog = [\<lparr>id' = ''B1'', title = ''T1'', author = ''A1''\<rparr>,
                               \<lparr>id' = ''B2'', title = ''T2'', author = ''A2''\<rparr>],
                    available_book_ids = {''B1'', ''B2''}, issued_records = []\<rparr> = []
   \<and> display_available_books
        \<lparr>catalog = [\<lparr>id' = ''B1'', title = ''T1'', author = ''A1''\<rparr>,
                    \<lparr>id' = ''B2'', title = ''T2'', author = ''A2''\<rparr>],
         available_book_ids = {''B1'', ''B2''}, issued_records = []\<rparr> []
     = ([DisplayHeader, TotalAvailable 2,
         Listing 1 \<lparr>id' = ''B1'', title = ''T1'', author = ''A1''\<rparr>,
         Listing 2 \<lparr>id' = ''B2'', title = ''T2'', author = ''A2''\<rparr>],
        Inr (\<lparr>catalog = [\<lparr>id' = ''B1'', title = ''T1'', author = ''A1''\<rparr>,
                         \<lparr>id' = ''B2'', title = ''T2'', author = ''A2''\<rparr>],
              available_book_ids = {''B1'', ''B2''}, issued_records = []\<rparr>, []))"
proof -
  let ?L = "\<lparr>catalog = [\<lparr>id' = ''B1'', title = ''T1'', author = ''A1''\<rparr>,
                         \<lparr>id' = ''B2'', title = ''T2'', author = ''A2''\<rparr>],
             available_book_ids = {''B1'', ''B2''}, issued_records = []\<rparr>"
  have r: "issued_records ?L = []" by simp
  have u: "[0 ..< 2] = [0, Suc 0]" by (simp add: upt_rec)
  from display_without_issued_records [OF r, of "[]"] r show ?thesis
    by (simp add: u)
qed

section \<open>One holder for each book\<close>

lemma one_holder_iff:
  "one_holder records \<longleftrightarrow>
     (\<forall>s1 S1 s2 S2. (s1, S1) \<in> set records \<longrightarrow> (s2, S2) \<in> set records \<longrightarrow> s1 \<noteq> s2
        \<longrightarrow> S1 \<inter> S2 = {})"
  unfolding one_holder_def Ball_def by simp

lemma one_holderI:
  assumes "\<And>s1 S1 s2 S2. (s1, S1) \<in> set records \<Longrightarrow> (s2, S2) \<in> set records \<Longrightarrow> s1 \<noteq> s2
             \<Longrightarrow> S1 \<inter> S2 = {}"
  shows "one_holder records"
  by (simp add: one_holder_iff assms)

lemma one_holderD:
  assumes "one_holder records"
    and "(s1, S1) \<in> set records" and "(s2, S2) \<in> set records" and "s1 \<noteq> s2"
  shows "S1 \<inter> S2 = {}"
  using assms by (simp add: one_holder_iff)

lemma one_holder_update:
  assumes "one_holder records"
    and "\<And>s2 S2. (s2, S2) \<in> set records \<Longrightarrow> s2 \<noteq> student_id \<Longrightarrow> S \<inter> S2 = {}"
  shows "one_holder (AList.update student_id S records)"
proof (rule one_holderI)
  fix s1 S1 s2 S2
  assume 1: "(s1, S1) \<in> set (AList.update student_id S records)"
    and 2: "(s2, S2) \<in> set (AList.update student_id S records)"
    and ne: "s1 \<noteq> s2"
  have sub: "set (AList.update student_id S records) \<subseteq> insert (student_id, S) (set records)"
    by (rule set_update_subset)
  from 1 sub have c1: "(s1 = student_id \<and> S1 = S) \<or> (s1, S1) \<in> set records" by auto
  from 2 sub have c2: "(s2 = student_id \<and> S2 = S) \<or> (s2, S2) \<in> set records" by auto
  from c1 show "S1 \<inter> S2 = {}"
  proof
    assume a: "s1 = student_id \<and> S1 = S"
    with c2 ne have "(s2, S2) \<in> set records" by simp
    with a ne assms(2) [of s2 S2] show ?thesis by simp
  next
    assume a: "(s1, S1) \<in> set records"
    from c2 show ?thesis
    proof
      assume b: "s2 = student_id \<and> S2 = S"
      with a ne assms(2) [of s1 S1] have "S \<inter> S1 = {}" by simp
      with b show ?thesis by (simp add: Int_commute)
    next
      assume "(s2, S2) \<in> set records"
      with assms(1) a show ?thesis using ne by (rule one_holderD)
    qed
  qed
qed

lemma one_holder_delete:
  assumes "one_holder records"
  shows "one_holder (AList.delete student_id records)"
proof (rule one_holderI)
  fix s1 S1 s2 S2
  assume "(s1, S1) \<in> set (AList.delete student_id records)"
    and "(s2, S2) \<in> set (AList.delete student_id records)"
    and ne: "s1 \<noteq> s2"
  with set_delete_subset [of student_id records]
  have "(s1, S1) \<in> set records" and "(s2, S2) \<in> set records" by blast+
  with assms show "S1 \<inter> S2 = {}" using ne by (rule one_holderD)
qed

lemma issue_book_one_holder:
  assumes "one_holder (issued_records L)" and "issue_book L ins = (out, Inr (L', ins'))"
  shows "one_holder (issued_records L')"
proof -
  from issue_book_records [OF assms(2)]
  consider "L' = L"
    | student_id book_id where
        "\<forall>S \<in> set (map snd (issued_records L)). book_id \<notin> S"
        "L' = L\<lparr>issued_records :=
                 AList.update student_id
                   (insert book_id (case map_of (issued_records L) student_id of
                                      None \<Rightarrow> {} | Some S \<Rightarrow> S))
                   (issued_records L)\<rparr>"
    by blast
  then show ?thesis
  proof cases
    case 1
    with assms(1) show ?thesis by simp
  next
    case 2
    define S0 where
      "S0 = (case map_of (issued_records L) student_id of None \<Rightarrow> {} | Some S \<Rightarrow> S)"
    have "insert book_id S0 \<inter> S2 = {}"
      if in2: "(s2, S2) \<in> set (issued_records L)" and ne: "s2 \<noteq> student_id" for s2 S2
    proof -
      from in2 have "S2 \<in> set (map snd (issued_records L))"
        by (simp add: rev_image_eqI)
      with 2(1) have b: "book_id \<notin> S2" by (rule bspec)
      have "S0 \<inter> S2 = {}"
      proof (cases "map_of (issued_records L) student_id")
        case None
        then show ?thesis by (simp add: S0_def)
      next
        case (Some S)
        then have "(student_id, S) \<in> set (issued_records L)" by (rule map_of_SomeD)
        with assms(1) have "S \<inter> S2 = {}" using in2 ne [symmetric] by (rule one_holderD)
        with Some show ?thesis by (simp add: S0_def)
      qed
      with b show ?thesis by simp
    qed
    with assms(1) have "one_holder (AList.update student_id (insert book_id S0) (issued_records L))"
      by (rule one_holder_update)
    with 2(2) show ?thesis by (simp add: S0_def)
  qed
qed

lemma return_book_one_holder:
  assumes "one_holder (issued_records L)" and "return_book L ins = (out, Inr (L', ins'))"
  shows "one_holder (issued_records L')"
proof -
  from return_book_records [OF assms(2)]
  consider "L' = L"
    | student_id book_id S where
        "map_of (issued_records L) student_id = Some S"
        "L' = L\<lparr>issued_records :=
                 (if S - {book_id} = {} then AList.delete student_id (issued_records L)
                  else AList.update student_id (S - {book_id}) (issued_records L))\<rparr>"
    by blast
  then show ?thesis
  proof cases
    case 1
    with assms(1) show ?thesis by simp
  next
    case 2
    from 2(1) have m: "(student_id, S) \<in> set (issued_records L)" by (rule map_of_SomeD)
    have "(S - {book_id}) \<inter> S2 = {}"
      if in2: "(s2, S2) \<in> set (issued_records L)" and ne: "s2 \<noteq> student_id" for s2 S2
    proof -
      from assms(1) m in2 ne [symmetric] have "S \<inter> S2 = {}" by (rule one_holderD)
      then show ?thesis by blast
    qed
    with assms(1)
    have "one_holder (AList.update student_id (S - {book_id}) (issued_records L))"
      by (rule one_holder_update)
    with 2(2) assms(1) show ?thesis by (simp add: one_holder_delete)
  qed
qed

lemma display_available_books_library:
  "display_available_books L ins = (out, Inr (L', ins')) \<Longrightarrow> L' = L"
  by (auto simp: display_available_books_def split: if_splits)

text \<open>
  C9: when each book id is in the issued set of at most one student, that is still so in
  the library each of \<open>add_book\<close>, \<open>issue_book\<close>, \<open>return_book\<close> and
  \<open>display_available_books\<close> leaves.
\<close>

theorem one_holder_preserved:
  assumes "one_holder (issued_records L)"
  shows "(add_book L ins = (out, Inr (L', ins')) \<longrightarrow> one_holder (issued_records L'))
         \<and> (issue_book L ins = (out, Inr (L', ins')) \<longrightarrow> one_holder (issued_records L'))
         \<and> (return_book L ins = (out, Inr (L', ins')) \<longrightarrow> one_holder (issued_records L'))
         \<and> (display_available_books L ins = (out, Inr (L', ins'))
              \<longrightarrow> one_holder (issued_records L'))"
  using assms
  by (auto simp: add_book_issued_records dest: display_available_books_library
           intro: issue_book_one_holder return_book_one_holder)

theorem one_holder_preserved_witness:
  "one_holder [(''S1'', {''B1''})]
   \<and> add_book \<lparr>catalog = [\<lparr>id' = ''B1'', title = ''T1'', author = ''A1''\<rparr>,
                           \<lparr>id' = ''B2'', title = ''T2'', author = ''A2''\<rparr>],
                available_book_ids = {''B1'', ''B2''},
                issued_records = [(''S1'', {''B1''})]\<rparr> [''b3'', ''t3'', ''a3'']
      = ([AddHeader, BookAdded ''T3'' ''A3'',
          SaveCatalog [\<lparr>id' = ''B1'', title = ''T1'', author = ''A1''\<rparr>,
                       \<lparr>id' = ''B2'', title = ''T2'', author = ''A2''\<rparr>,
                       \<lparr>id' = ''B3'', title = ''T3'', author = ''A3''\<rparr>]],
         Inr (\<lparr>catalog = [\<lparr>id' = ''B1'', title = ''T1'', author = ''A1''\<rparr>,
                          \<lparr>id' = ''B2'', title = ''T2'', author = ''A2''\<rparr>,
                          \<lparr>id' = ''B3'', title = ''T3'', author = ''A3''\<rparr>],
               available_book_ids = {''B3'', ''B1'', ''B2''},
               issued_records = [(''S1'', {''B1''})]\<rparr>, []))
   \<and> issue_book \<lparr>catalog = [\<lparr>id' = ''B1'', title = ''T1'', author = ''A1''\<rparr>,
                             \<lparr>id' = ''B2'', title = ''T2'', author = ''A2''\<rparr>],
                  available_book_ids = {''B1'', ''B2''},
                  issued_records = [(''S1'', {''B1''})]\<rparr> [''s2'', ''b2'']
      = ([IssueHeader, BookIssued ''B2'' ''S2'',
          SaveIssuedRecords [(''S1'', {''B1''}), (''S2'', {''B2''})]],
         Inr (\<lparr>catalog = [\<lparr>id' = ''B1'', title = ''T1'', author = ''A1''\<rparr>,
                          \<lparr>id' = ''B2'', title = ''T2'', author = ''A2''\<rparr>],
               available_book_ids = {''B1'', ''B2''},
               issued_records = [(''S1'', {''B1''}), (''S2'', {''B2''})]\<rparr>, []))
   \<and> one_holder [(''S1'', {''B1''}), (''S2'', {''B2''})]
   \<and> return_book \<lparr>catalog = [\<lparr>id' = ''B1'', title = ''T1'', author = ''A1''\<rparr>,
                              \<lparr>id' = ''B2'', title = ''T2'', author = ''A2''\<rparr>],
                   available_book_ids = {''B1'', ''B2''},
                   issued_records = [(''S1'', {''B1''})]\<rparr> [''s1'', ''b1'']
      = ([ReturnHeader, BookReturned ''B1'' ''S1'', SaveIssuedRecords []],
         Inr (\<lparr>catalog = [\<lparr>id' = ''B1'', title = ''T1'', author = ''A1''\<rparr>,
                          \<lparr>id' = ''B2'', title = ''T2'', author = ''A2''\<rparr>],
               available_book_ids = {''B1'', ''B2''}, issued_records = []\<rparr>, []))
   \<and> one_holder []
   \<and> display_available_books
         \<lparr>catalog = [\<lparr>id' = ''B1'', title = ''T1'', author = ''A1''\<rparr>,
                     \<lparr>id' = ''B2'', title = ''T2'', author = ''A2''\<rparr>],
          available_book_ids = {''B1'', ''B2''},
          issued_records = [(''S1'', {''B1''})]\<rparr> []
      = ([DisplayHeader, TotalAvailable 1,
          Listing 1 \<lparr>id' = ''B2'', title = ''T2'', author = ''A2''\<rparr>],
         Inr (\<lparr>catalog = [\<lparr>id' = ''B1'', title = ''T1'', author = ''A1''\<rparr>,
                          \<lparr>id' = ''B2'', title = ''T2'', author = ''A2''\<rparr>],
               available_book_ids = {''B1'', ''B2''},
               issued_records = [(''S1'', {''B1''})]\<rparr>, []))"
proof -
  let ?L = "\<lparr>catalog = [\<lparr>id' = ''B1'', title = ''T1'', author = ''A1''\<rparr>,
                         \<lparr>id' = ''B2'', title = ''T2'', author = ''A2''\<rparr>],
             available_book_ids = {''B1'', ''B2''},
             issued_records = [(''S1'', {''B1''})]\<rparr>"
  have h: "one_holder (issued_records ?L)" by (simp add: one_holder_def)
  have a: "add_book ?L [''b3'', ''t3'', ''a3'']
      = ([AddHeader, BookAdded ''T3'' ''A3'',
          SaveCatalog [\<lparr>id' = ''B1'', title = ''T1'', author = ''A1''\<rparr>,
                       \<lparr>id' = ''B2'', title = ''T2'', author = ''A2''\<rparr>,
                       \<lparr>id' = ''B3'', title = ''T3'', author = ''A3''\<rparr>]],
         Inr (\<lparr>catalog = [\<lparr>id' = ''B1'', title = ''T1'', author = ''A1''\<rparr>,
                          \<lparr>id' = ''B2'', title = ''T2'', author = ''A2''\<rparr>,
                          \<lparr>id' = ''B3'', title = ''T3'', author = ''A3''\<rparr>],
               available_book_ids = {''B3'', ''B1'', ''B2''},
               issued_records = [(''S1'', {''B1''})]\<rparr>, []))"
    by (simp add: add_book_def str_defs)
  have i: "issue_book ?L [''s2'', ''b2'']
      = ([IssueHeader, BookIssued ''B2'' ''S2'',
          SaveIssuedRecords [(''S1'', {''B1''}), (''S2'', {''B2''})]],
         Inr (\<lparr>catalog = [\<lparr>id' = ''B1'', title = ''T1'', author = ''A1''\<rparr>,
                          \<lparr>id' = ''B2'', title = ''T2'', author = ''A2''\<rparr>],
               available_book_ids = {''B1'', ''B2''},
               issued_records = [(''S1'', {''B1''}), (''S2'', {''B2''})]\<rparr>, []))"
    by (simp add: str_defs)
  have r: "return_book ?L [''s1'', ''b1'']
      = ([ReturnHeader, BookReturned ''B1'' ''S1'', SaveIssuedRecords []],
         Inr (\<lparr>catalog = [\<lparr>id' = ''B1'', title = ''T1'', author = ''A1''\<rparr>,
                          \<lparr>id' = ''B2'', title = ''T2'', author = ''A2''\<rparr>],
               available_book_ids = {''B1'', ''B2''}, issued_records = []\<rparr>, []))"
    by (simp add: str_defs)
  have d: "display_available_books ?L []
      = ([DisplayHeader, TotalAvailable 1,
          Listing 1 \<lparr>id' = ''B2'', title = ''T2'', author = ''A2''\<rparr>],
         Inr (?L, []))"
    by (simp add: display_available_books_def available_books_def issued_book_ids_def)
  from one_holder_preserved [OF h, of "[''s2'', ''b2'']"
         "[IssueHeader, BookIssued ''B2'' ''S2'',
           SaveIssuedRecords [(''S1'', {''B1''}), (''S2'', {''B2''})]]"
         "?L\<lparr>issued_records := [(''S1'', {''B1''}), (''S2'', {''B2''})]\<rparr>" "[]"] i
  have 1: "one_holder [(''S1'', {''B1''}), (''S2'', {''B2''})]"
    by (simp del: issue_book.simps return_book.simps)
  from one_holder_preserved [OF h, of "[''s1'', ''b1'']"
         "[ReturnHeader, BookReturned ''B1'' ''S1'', SaveIssuedRecords []]"
         "?L\<lparr>issued_records := []\<rparr>" "[]"] r
  have 2: "one_holder []"
    by (simp del: issue_book.simps return_book.simps)
  from h a i r d 1 2 show ?thesis by (simp del: issue_book.simps return_book.simps)
qed

section \<open>What the operations leave alone\<close>

text \<open>
  C10: \<open>issue_book\<close> and \<open>return_book\<close> leave \<open>catalog\<close> and \<open>available_book_ids\<close>
  as they were, and \<open>add_book\<close> leaves \<open>issued_records\<close> as it was, whatever the
  operation printed.
\<close>

theorem operations_frame:
  "(issue_book L ins = (out, Inr (L', ins'))
      \<longrightarrow> catalog L' = catalog L \<and> available_book_ids L' = available_book_ids L)
   \<and> (return_book L ins = (out, Inr (L', ins'))
      \<longrightarrow> catalog L' = catalog L \<and> available_book_ids L' = available_book_ids L)
   \<and> (add_book L ins = (out, Inr (L', ins')) \<longrightarrow> issued_records L' = issued_records L)"
proof (intro conjI impI)
  assume "issue_book L ins = (out, Inr (L', ins'))"
  from issue_book_records [OF this]
  show "catalog L' = catalog L" and "available_book_ids L' = available_book_ids L"
    by auto
next
  assume "return_book L ins = (out, Inr (L', ins'))"
  from return_book_records [OF this]
  show "catalog L' = catalog L" and "available_book_ids L' = available_book_ids L"
    by auto
next
  assume "add_book L ins = (out, Inr (L', ins'))"
  then show "issued_records L' = issued_records L"
    by (rule add_book_issued_records)
qed

theorem operations_frame_witness:
  "issue_book \<lparr>catalog = [\<lparr>id' = ''B1'', title = ''T1'', author = ''A1''\<rparr>,
                            \<lparr>id' = ''B2'', title = ''T2'', author = ''A2''\<rparr>],
                 available_book_ids = {''B1'', ''B2''},
                 issued_records = [(''S1'', {''B1''})]\<rparr> [''s2'', ''b2'']
      = ([IssueHeader, BookIssued ''B2'' ''S2'',
          SaveIssuedRecords [(''S1'', {''B1''}), (''S2'', {''B2''})]],
         Inr (\<lparr>catalog = [\<lparr>id' = ''B1'', title = ''T1'', author = ''A1''\<rparr>,
                          \<lparr>id' = ''B2'', title = ''T2'', author = ''A2''\<rparr>],
               available_book_ids = {''B1'', ''B2''},
               issued_records = [(''S1'', {''B1''}), (''S2'', {''B2''})]\<rparr>, []))
   \<and> return_book \<lparr>catalog = [\<lparr>id' = ''B1'', title = ''T1'', author = ''A1''\<rparr>,
                              \<lparr>id' = ''B2'', title = ''T2'', author = ''A2''\<rparr>],
                   available_book_ids = {''B1'', ''B2''},
                   issued_records = [(''S1'', {''B1''})]\<rparr> [''s1'', ''b2'']
      = ([ReturnHeader, BookNotIssuedToStudent ''B2'' ''S1''],
         Inr (\<lparr>catalog = [\<lparr>id' = ''B1'', title = ''T1'', author = ''A1''\<rparr>,
                          \<lparr>id' = ''B2'', title = ''T2'', author = ''A2''\<rparr>],
               available_book_ids = {''B1'', ''B2''},
               issued_records = [(''S1'', {''B1''})]\<rparr>, []))
   \<and> (\<exists>out L'. add_book \<lparr>catalog = [\<lparr>id' = ''B1'', title = ''T1'', author = ''A1''\<rparr>,
                                      \<lparr>id' = ''B2'', title = ''T2'', author = ''A2''\<rparr>],
                           available_book_ids = {''B1'', ''B2''},
                           issued_records = [(''S1'', {''B1''})]\<rparr>
                         [''b1'', ''b3'', ''t3'', ''a3'']
                = (out, Inr (L', []))
              \<and> length (catalog L') = 3
              \<and> issued_records L' = [(''S1'', {''B1''})])"
proof -
  let ?L = "\<lparr>catalog = [\<lparr>id' = ''B1'', title = ''T1'', author = ''A1''\<rparr>,
                         \<lparr>id' = ''B2'', title = ''T2'', author = ''A2''\<rparr>],
             available_book_ids = {''B1'', ''B2''},
             issued_records = [(''S1'', {''B1''})]\<rparr>"
  obtain oi Li where i: "issue_book ?L [''s2'', ''b2''] = (oi, Inr (Li, []))"
    and oi: "oi = [IssueHeader, BookIssued ''B2'' ''S2'',
                   SaveIssuedRecords [(''S1'', {''B1''}), (''S2'', {''B2''})]]"
    and Li: "issued_records Li = [(''S1'', {''B1''}), (''S2'', {''B2''})]"
    by (simp add: str_defs)
  obtain orr Lr where r: "return_book ?L [''s1'', ''b2''] = (orr, Inr (Lr, []))"
    and orr: "orr = [ReturnHeader, BookNotIssuedToStudent ''B2'' ''S1'']"
    and Lr: "issued_records Lr = [(''S1'', {''B1''})]"
    by (simp add: str_defs)
  obtain oa La where a: "add_book ?L [''b1'', ''b3'', ''t3'', ''a3''] = (oa, Inr (La, []))"
    and La: "length (catalog La) = 3"
    by (simp add: add_book_def str_defs)
  from operations_frame [of ?L "[''s2'', ''b2'']" oi Li "[]"] i
  have fi: "catalog Li = catalog ?L" "available_book_ids Li = available_book_ids ?L"
    by (simp_all del: issue_book.simps return_book.simps)
  from operations_frame [of ?L "[''s1'', ''b2'']" orr Lr "[]"] r
  have fr: "catalog Lr = catalog ?L" "available_book_ids Lr = available_book_ids ?L"
    by (simp_all del: issue_book.simps return_book.simps)
  from operations_frame [of ?L "[''b1'', ''b3'', ''t3'', ''a3'']" oa La "[]"] a
  have fa: "issued_records La = issued_records ?L"
    by (simp del: issue_book.simps return_book.simps)
  have "Li = \<lparr>catalog = catalog ?L, available_book_ids = available_book_ids ?L,
              issued_records = [(''S1'', {''B1''}), (''S2'', {''B2''})]\<rparr>"
    using fi Li by (cases Li) simp
  moreover have "Lr = ?L"
    using fr Lr by (cases Lr) simp
  ultimately show ?thesis
    using i r a oi orr La fa
    by (simp del: issue_book.simps return_book.simps)
qed

end
